theory Spec2Isabelle
  imports Complex_Main "HOL-Library.Word"
begin

section \<open>The Pilot of the air lift (semSharedMemPilot.c)\<close>

text \<open>
  The Pilot is one sequential process. It stores into a region of memory shared with the
  Hostess and the Passengers and synchronises with them through a set of semaphores.
  The model is the Pilot's own program: every call into a library (the semaphore set,
  \<^verbatim>\<open>random\<close>, \<^verbatim>\<open>usleep\<close>, the detach of the region) is answered by a script held
  in the world, every action of the Pilot is appended to a trace, and a call that ends
  the process or never returns ends the run.
\<close>

subsection \<open>Shared data\<close>

text \<open>
  Modelled from the spec: the five states of the Pilot. The macros are defined in
  probConst.h, which is absent; the spec lists them as an enumeration of five phases.
  The spelling of the constructors is the one of the source.
\<close>

datatype pilot_state =
    FLYING_BACK
  | READY_FOR_BOARDING
  | WAITING_FOR_BOARDING
  | FLYING
  | DROPING_PASSENGERS

text \<open>
  Modelled from the spec: the semaphores of the signal set. In the source they are the
  fields \<^verbatim>\<open>mutex\<close>, \<^verbatim>\<open>readyForBoarding\<close>, \<^verbatim>\<open>readyToFlight\<close>,
  \<^verbatim>\<open>passengersWaitInFlight\<close> and \<^verbatim>\<open>planeEmpty\<close> of the shared data
  (sharedDataSync.h, absent), each holding the index of one semaphore of the set.
\<close>

datatype sem =
    mutex
  | readyForBoarding
  | readyToFlight
  | passengersWaitInFlight
  | planeEmpty

text \<open>
  The state of the problem (\<^verbatim>\<open>sh->fSt\<close>). probDataStruct.h is absent, so only the
  fields the Pilot names are fields of the records; every other field of STAT (the states
  of the Hostess and of the Passengers) and of FULL_STAT (the counters of passengers in
  the queue, in flight and boarded) lives in the extension part of the record.

  Modelled from the spec: \<^verbatim>\<open>nFlight\<close> is a counter that only grows; its C type is
  declared in the absent header, and the model takes an unbounded integer.
\<close>

record STAT =
  pilotStat :: pilot_state

record 'a FULL_STAT =
  st :: "'a STAT_scheme"
  nFlight :: int
  finished :: bool

subsection \<open>Actions, replies and outcomes\<close>

text \<open>
  An \<open>event\<close> is one thing the Pilot does that another actor, the log or the operating
  system can see: a semaphore operation with the value it returned (\<open>None\<close> for a down
  that never returned), a store into the region, the read of \<open>finished\<close>, a call of the
  logging library, a sleep with its length in microseconds, the detach of the region, a
  diagnostic on \<open>stderr\<close>.

  A \<open>reply\<close> is what the environment answers to one library call: the value returned
  and, for a call that may wait, whether it ever returns.

  A call of the Pilot has one of three outcomes: it returns a value, it ends the process
  (\<open>exit\<close>), or it waits forever on a semaphore nobody raises.

  A \<open>world\<close> holds the region \<open>fSt\<close>, the trace of the events so far, a clock that counts
  the library calls made, and the environment: \<open>replies w k\<close> answers the library call made
  at time \<open>k\<close>, \<open>randoms w k\<close> is what \<open>random\<close> gives at time \<open>k\<close>, and \<open>others w k\<close> is what
  the other actors and the controller have done to the region by time \<open>k\<close>.
\<close>

datatype event =
    SemDown sem "int option"
  | SemUp sem int
  | StorePilotStat pilot_state
  | StoreNFlight int
  | ReadFinished bool
  | SaveState
  | SaveStartBoarding
  | SaveFlightArrived
  | SaveFlightReturning
  | Usleep "32 word"
  | ShmemDettach int
  | Perror string

record reply =
  ret :: int
  wakes :: bool

datatype ('r, 'w) res =
    Return 'r 'w
  | Exited int 'w
  | Blocked 'w

record ('a, 'b) world =
  fSt :: "('a, 'b) FULL_STAT_scheme"
  trace :: "event list"
  clock :: nat
  replies :: "nat \<Rightarrow> reply"
  randoms :: "nat \<Rightarrow> int"
  others :: "nat \<Rightarrow> ('a, 'b) FULL_STAT_scheme \<Rightarrow> ('a, 'b) FULL_STAT_scheme"

fun world_of :: "('r, 'w) res \<Rightarrow> 'w" where
  "world_of (Return r w) = w"
| "world_of (Exited c w) = w"
| "world_of (Blocked w) = w"

fun andThen :: "('r, 'w) res \<Rightarrow> ('r \<Rightarrow> 'w \<Rightarrow> ('s, 'w) res) \<Rightarrow> ('s, 'w) res" where
  "andThen (Return r w) f = f r w"
| "andThen (Exited c w) f = Exited c w"
| "andThen (Blocked w) f = Blocked w"

definition EXIT_SUCCESS :: int where
  "EXIT_SUCCESS = 0"

definition EXIT_FAILURE :: int where
  "EXIT_FAILURE = 1"

definition RAND_MAX :: int where
  "RAND_MAX = 2147483647"

definition emit :: "event \<Rightarrow> ('a, 'b) world \<Rightarrow> ('a, 'b) world" where
  "emit e w = w\<lparr>trace := trace w @ [e]\<rparr>"

definition tick :: "('a, 'b) world \<Rightarrow> ('a, 'b) world" where
  "tick w = w\<lparr>clock := clock w + 1\<rparr>"

subsection \<open>Library calls\<close>

text \<open>
  Modelled from the spec: \<open>semDown\<close> and \<open>semUp\<close> of the semaphore library (semaphore.h,
  absent). A down waits until the semaphore is raised: it returns what the library
  reports, \<open>-1\<close> for an error, or it never returns. An up never waits. The Pilot tests
  the value returned against \<open>-1\<close> and nothing else.

  Modelled from the spec: \<open>shmemDettach\<close> of sharedMemory.h (absent) returns \<open>-1\<close> for an
  error; \<open>saveState\<close>, \<open>saveStartBoarding\<close>, \<open>saveFlightArrived\<close> and
  \<open>saveFlightReturning\<close> of logging.h (absent) append to the log and return nothing, so
  the model records the call.

  \<open>random\<close>, \<open>usleep\<close>, \<open>perror\<close> and \<open>exit\<close> are those of the C library; the value
  returned by \<open>usleep\<close> is not looked at by the Pilot. RAND_MAX is 2147483647.
\<close>

definition semDown :: "sem \<Rightarrow> ('a, 'b) world \<Rightarrow> (int, ('a, 'b) world) res" where
  "semDown s w =
     (let r = replies w (clock w) in
      if wakes r then Return (ret r) (emit (SemDown s (Some (ret r))) (tick w))
      else Blocked (emit (SemDown s None) (tick w)))"

definition semUp :: "sem \<Rightarrow> ('a, 'b) world \<Rightarrow> (int, ('a, 'b) world) res" where
  "semUp s w =
     (let r = replies w (clock w) in
      Return (ret r) (emit (SemUp s (ret r)) (tick w)))"

definition shmemDettach :: "('a, 'b) world \<Rightarrow> (int, ('a, 'b) world) res" where
  "shmemDettach w =
     (let r = replies w (clock w) in
      Return (ret r) (emit (ShmemDettach (ret r)) (tick w)))"

definition random :: "('a, 'b) world \<Rightarrow> (int, ('a, 'b) world) res" where
  "random w = Return (randoms w (clock w)) (tick w)"

definition usleep :: "32 word \<Rightarrow> ('a, 'b) world \<Rightarrow> (unit, ('a, 'b) world) res" where
  "usleep t w = Return () (emit (Usleep t) (tick w))"

definition perror :: "string \<Rightarrow> ('a, 'b) world \<Rightarrow> ('a, 'b) world" where
  "perror msg w = emit (Perror msg) w"

definition exit :: "int \<Rightarrow> ('a, 'b) world \<Rightarrow> ('r, ('a, 'b) world) res" where
  "exit c w = Exited c w"

definition saveState :: "('a, 'b) world \<Rightarrow> ('a, 'b) world" where
  "saveState w = emit SaveState w"

definition saveStartBoarding :: "('a, 'b) world \<Rightarrow> ('a, 'b) world" where
  "saveStartBoarding w = emit SaveStartBoarding w"

definition saveFlightArrived :: "('a, 'b) world \<Rightarrow> ('a, 'b) world" where
  "saveFlightArrived w = emit SaveFlightArrived w"

definition saveFlightReturning :: "('a, 'b) world \<Rightarrow> ('a, 'b) world" where
  "saveFlightReturning w = emit SaveFlightReturning w"

subsection \<open>Stores into the shared region\<close>

text \<open>
  The two assignments of the source, \<^verbatim>\<open>sh->fSt.st.pilotStat = ...\<close> and
  \<^verbatim>\<open>sh->fSt.nFlight++\<close>, each with its event.
\<close>

definition store_pilotStat :: "pilot_state \<Rightarrow> ('a, 'b) world \<Rightarrow> ('a, 'b) world" where
  "store_pilotStat p w =
     emit (StorePilotStat p) (w\<lparr>fSt := (fSt w)\<lparr>st := (st (fSt w))\<lparr>pilotStat := p\<rparr>\<rparr>\<rparr>)"

definition incr_nFlight :: "('a, 'b) world \<Rightarrow> ('a, 'b) world" where
  "incr_nFlight w =
     emit (StoreNFlight (nFlight (fSt w) + 1)) (w\<lparr>fSt := (fSt w)\<lparr>nFlight := nFlight (fSt w) + 1\<rparr>\<rparr>)"

subsection \<open>The operations of the Pilot\<close>

text \<open>
  \<open>isFinished\<close> is the one place where the Pilot reads a location that the others write.
  The value it gets is the one the region holds at that moment, so the model lets the
  environment act on the region there, before the read. The four operations only store
  into fields the Pilot owns and read \<open>nFlight\<close>, which no one else writes.

  \<open>MAXFLIGHT\<close> is a macro of probConst.h (absent) and a parameter here. The argument of
  \<open>usleep\<close> is computed in exact arithmetic; the conversion to \<^verbatim>\<open>unsigned int\<close> is
  the identity on values below \<open>2 ^ 32\<close>.

  \<open>cycle\<close> is the body of the loop of \<open>main\<close>, \<open>life_cycle\<close> the loop, with fuel for the
  number of times the condition may be evaluated (\<open>None\<close>: the fuel ran out), and
  \<open>main\<close> the program from the loop on: the lines before it check the command line and
  attach the semaphore set and the region, and the world given to \<open>main\<close> is the one they
  leave.
\<close>

definition isFinished :: "('a, 'b) world \<Rightarrow> bool \<times> ('a, 'b) world" where
  "isFinished w =
     (let w1 = w\<lparr>fSt := others w (clock w) (fSt w)\<rparr>
      in (finished (fSt w1), emit (ReadFinished (finished (fSt w1))) w1))"

definition flight :: "real \<Rightarrow> bool \<Rightarrow> ('a, 'b) world \<Rightarrow> (unit, ('a, 'b) world) res" where
  "flight MAXFLIGHT go w0 =
     andThen (semDown mutex w0) (\<lambda>r1 w1.
       if r1 = - 1
       then exit EXIT_FAILURE (perror ''error on the up operation for semaphore access (PT)'' w1)
       else
         let w2 = store_pilotStat (if go then FLYING else FLYING_BACK) w1;
             w3 = saveState w2
         in andThen (semUp mutex w3) (\<lambda>r2 w4.
              if r2 = - 1
              then exit EXIT_FAILURE (perror ''error on the up operation for semaphore access (PT)'' w4)
              else
                andThen (random w4) (\<lambda>x w5.
                  usleep (word_of_int \<lfloor>(MAXFLIGHT * of_int x) / of_int RAND_MAX + 100\<rfloor>) w5)))"

definition signalReadyForBoarding :: "('a, 'b) world \<Rightarrow> (unit, ('a, 'b) world) res" where
  "signalReadyForBoarding w0 =
     andThen (semDown mutex w0) (\<lambda>r1 w1.
       if r1 = - 1
       then exit EXIT_FAILURE (perror ''error on the up operation for semaphore access (PT)'' w1)
       else
         let w2 = store_pilotStat READY_FOR_BOARDING w1;
             w3 = incr_nFlight w2;
             w4 = saveState w3;
             w5 = saveStartBoarding w4
         in andThen (semUp mutex w5) (\<lambda>r2 w6.
              if r2 = - 1
              then exit EXIT_FAILURE (perror ''error on the up operation for semaphore access (PT)'' w6)
              else
                andThen (semUp readyForBoarding w6) (\<lambda>r3 w7.
                  if r3 = - 1
                  then exit EXIT_FAILURE
                         (perror ''error on the up operation for semaphore (playersWaitReferee) access (RF)'' w7)
                  else Return () w7)))"

definition waitUntilReadyToFlight :: "('a, 'b) world \<Rightarrow> (unit, ('a, 'b) world) res" where
  "waitUntilReadyToFlight w0 =
     andThen (semDown mutex w0) (\<lambda>r1 w1.
       if r1 = - 1
       then exit EXIT_FAILURE (perror ''error on the down operation for semaphore access (PT)'' w1)
       else
         let w2 = store_pilotStat WAITING_FOR_BOARDING w1;
             w3 = saveState w2
         in andThen (semUp mutex w3) (\<lambda>r2 w4.
              if r2 = - 1
              then exit EXIT_FAILURE (perror ''error on the up operation for semaphore access (PT)'' w4)
              else
                andThen (semDown readyToFlight w4) (\<lambda>r3 w5.
                  if r3 = - 1
                  then exit EXIT_FAILURE
                         (perror ''error on the down operation for semaphore (playersWaitReferee) access (RF)'' w5)
                  else Return () w5)))"

definition dropPassengersAtTarget :: "('a, 'b) world \<Rightarrow> (unit, ('a, 'b) world) res" where
  "dropPassengersAtTarget w0 =
     andThen (semDown mutex w0) (\<lambda>r1 w1.
       if r1 = - 1
       then exit EXIT_FAILURE (perror ''error on the down operation for semaphore access (PT)'' w1)
       else
         let w2 = store_pilotStat DROPING_PASSENGERS w1;
             w3 = saveFlightArrived w2;
             w4 = saveState w3
         in andThen (semUp mutex w4) (\<lambda>r2 w5.
              if r2 = - 1
              then exit EXIT_FAILURE (perror ''error on the up operation for semaphore access (PT)'' w5)
              else
                andThen (semUp passengersWaitInFlight w5) (\<lambda>r3 w6.
                  if r3 = - 1
                  then exit EXIT_FAILURE (perror ''error on the up operation for semaphore access (PT)'' w6)
                  else
                    andThen (semDown planeEmpty w6) (\<lambda>r4 w7.
                      if r4 = - 1
                      then exit EXIT_FAILURE
                             (perror ''error on the down operation for semaphore access (PT)'' w7)
                      else
                        andThen (semDown mutex w7) (\<lambda>r5 w8.
                          if r5 = - 1
                          then exit EXIT_FAILURE
                                 (perror ''error on the down operation for semaphore access (PT)'' w8)
                          else
                            let w9 = saveFlightReturning w8
                            in andThen (semUp mutex w9) (\<lambda>r6 w10.
                                 if r6 = - 1
                                 then exit EXIT_FAILURE
                                        (perror ''error on the up operation for semaphore access (PT)'' w10)
                                 else Return () w10))))))"

definition cycle :: "real \<Rightarrow> ('a, 'b) world \<Rightarrow> (unit, ('a, 'b) world) res" where
  "cycle MAXFLIGHT w0 =
     andThen (flight MAXFLIGHT False w0) (\<lambda>_ w1.
       andThen (signalReadyForBoarding w1) (\<lambda>_ w2.
         andThen (waitUntilReadyToFlight w2) (\<lambda>_ w3.
           andThen (flight MAXFLIGHT True w3) (\<lambda>_ w4.
             dropPassengersAtTarget w4))))"

fun life_cycle :: "real \<Rightarrow> nat \<Rightarrow> ('a, 'b) world \<Rightarrow> (unit, ('a, 'b) world) res option" where
  "life_cycle MAXFLIGHT 0 w = None"
| "life_cycle MAXFLIGHT (Suc n) w =
     (case isFinished w of
        (True, w1) \<Rightarrow> Some (Return () w1)
      | (False, w1) \<Rightarrow>
          (case cycle MAXFLIGHT w1 of
             Return _ w2 \<Rightarrow> life_cycle MAXFLIGHT n w2
           | Exited c w2 \<Rightarrow> Some (Exited c w2)
           | Blocked w2 \<Rightarrow> Some (Blocked w2)))"

definition main :: "real \<Rightarrow> nat \<Rightarrow> ('a, 'b) world \<Rightarrow> (int, ('a, 'b) world) res option" where
  "main MAXFLIGHT fuel w0 =
     (case life_cycle MAXFLIGHT fuel w0 of
        None \<Rightarrow> None
      | Some (Exited c w1) \<Rightarrow> Some (Exited c w1)
      | Some (Blocked w1) \<Rightarrow> Some (Blocked w1)
      | Some (Return _ w1) \<Rightarrow>
          Some (andThen (shmemDettach w1) (\<lambda>r w2.
            if r = - 1
            then Return EXIT_FAILURE
                   (perror ''error on unmapping the shared region off the process address space'' w2)
            else Return EXIT_SUCCESS w2)))"

section \<open>Vocabulary of the specification\<close>

subsection \<open>Replies seen by one call\<close>

text \<open>
  \<open>rc w k\<close> is the value returned by the \<open>k\<close>-th library call made from the world \<open>w\<close>
  on, and \<open>woken w k\<close> tells whether that call returns at all.
\<close>

definition rc :: "('a, 'b) world \<Rightarrow> nat \<Rightarrow> int" where
  "rc w k = ret (replies w (clock w + k))"

definition woken :: "('a, 'b) world \<Rightarrow> nat \<Rightarrow> bool" where
  "woken w k = wakes (replies w (clock w + k))"

definition new_events :: "('a, 'b) world \<Rightarrow> ('a, 'b) world \<Rightarrow> event list" where
  "new_events w w' = drop (length (trace w)) (trace w')"

fun final_trace :: "('r, ('a, 'b) world) res option \<Rightarrow> event list" where
  "final_trace None = []"
| "final_trace (Some out) = trace (world_of out)"

fun returned :: "('r, 'w) res \<Rightarrow> bool" where
  "returned (Return r w) = True"
| "returned _ = False"

fun exited_with :: "int \<Rightarrow> ('r, 'w) res \<Rightarrow> bool" where
  "exited_with c (Exited c' w) = (c' = c)"
| "exited_with c _ = False"

subsection \<open>Who holds the mutex\<close>

text \<open>
  The Pilot holds the mutex from a down of \<open>mutex\<close> that did not report an error to the
  next up of \<open>mutex\<close> that did not report one. \<open>outside_mutex P h tr\<close> says that every
  event of \<open>tr\<close> that satisfies \<open>P\<close> happens while the Pilot does not hold the mutex,
  \<open>under_mutex P h tr\<close> that it happens while the Pilot holds it; \<open>h\<close> tells whether the
  mutex is held when \<open>tr\<close> starts.
\<close>

fun acquires :: "event \<Rightarrow> bool" where
  "acquires (SemDown s (Some r)) = (s = mutex \<and> r \<noteq> - 1)"
| "acquires _ = False"

fun releases :: "event \<Rightarrow> bool" where
  "releases (SemUp s r) = (s = mutex \<and> r \<noteq> - 1)"
| "releases _ = False"

definition holding :: "bool \<Rightarrow> event \<Rightarrow> bool" where
  "holding h e = (if acquires e then True else if releases e then False else h)"

definition held :: "event list \<Rightarrow> bool" where
  "held tr = foldl holding False tr"

fun outside_mutex :: "(event \<Rightarrow> bool) \<Rightarrow> bool \<Rightarrow> event list \<Rightarrow> bool" where
  "outside_mutex P h [] = True"
| "outside_mutex P h (e # es) = ((P e \<longrightarrow> \<not> h) \<and> outside_mutex P (holding h e) es)"

fun under_mutex :: "(event \<Rightarrow> bool) \<Rightarrow> bool \<Rightarrow> event list \<Rightarrow> bool" where
  "under_mutex P h [] = True"
| "under_mutex P h (e # es) = ((P e \<longrightarrow> h) \<and> under_mutex P (holding h e) es)"

subsection \<open>Kinds of events\<close>

fun on_rendezvous :: "event \<Rightarrow> bool" where
  "on_rendezvous (SemDown s r) = (s \<noteq> mutex)"
| "on_rendezvous (SemUp s r) = (s \<noteq> mutex)"
| "on_rendezvous _ = False"

fun sleeps :: "event \<Rightarrow> bool" where
  "sleeps (Usleep t) = True"
| "sleeps _ = False"

definition suspends :: "event \<Rightarrow> bool" where
  "suspends e = (on_rendezvous e \<or> sleeps e)"

fun reads_finished :: "event \<Rightarrow> bool" where
  "reads_finished (ReadFinished b) = True"
| "reads_finished _ = False"

definition unlocked_action :: "event \<Rightarrow> bool" where
  "unlocked_action e = (on_rendezvous e \<or> sleeps e \<or> reads_finished e)"

fun accesses_state :: "event \<Rightarrow> bool" where
  "accesses_state (StorePilotStat p) = True"
| "accesses_state (StoreNFlight n) = True"
| "accesses_state SaveState = True"
| "accesses_state SaveStartBoarding = True"
| "accesses_state SaveFlightArrived = True"
| "accesses_state SaveFlightReturning = True"
| "accesses_state _ = False"

fun raises :: "sem \<Rightarrow> event \<Rightarrow> bool" where
  "raises s (SemUp s' r) = (s' = s)"
| "raises s _ = False"

fun waits_on :: "sem \<Rightarrow> event \<Rightarrow> bool" where
  "waits_on s (SemDown s' r) = (s' = s)"
| "waits_on s _ = False"

subsection \<open>Worlds to run the Pilot in\<close>

text \<open>
  \<open>boot rs stop\<close> is a world at the start of the life cycle: the region as the
  initialisation leaves it, nothing done yet, the library answering as \<open>rs\<close> says, and a
  controller that has set \<open>finished\<close> once the Pilot has made \<open>stop\<close> library calls.
\<close>

definition all_ok :: "nat \<Rightarrow> reply" where
  "all_ok k = \<lparr>ret = 0, wakes = True\<rparr>"

definition fails_at :: "nat \<Rightarrow> nat \<Rightarrow> reply" where
  "fails_at n k = \<lparr>ret = (if k = n then - 1 else 0), wakes = True\<rparr>"

definition never_at :: "nat \<Rightarrow> nat \<Rightarrow> reply" where
  "never_at n k = \<lparr>ret = 0, wakes = (k \<noteq> n)\<rparr>"

definition mid_random :: "nat \<Rightarrow> int" where
  "mid_random k = 1073741823"

definition boot :: "(nat \<Rightarrow> reply) \<Rightarrow> nat \<Rightarrow> (unit, unit) world" where
  "boot rs stop =
     \<lparr>fSt = \<lparr>st = \<lparr>pilotStat = FLYING_BACK\<rparr>, nFlight = 0, finished = False\<rparr>,
      trace = [],
      clock = 0,
      replies = rs,
      randoms = mid_random,
      others = (\<lambda>k s. if stop \<le> k then s\<lparr>finished := True\<rparr> else s)\<rparr>"

subsection \<open>Frames\<close>

text \<open>
  \<open>only_pilotStat_changed s s'\<close>: the regions \<open>s\<close> and \<open>s'\<close> agree on every field other
  than the state of the Pilot, that is on \<open>nFlight\<close>, on \<open>finished\<close>, on the fields of
  FULL_STAT the Pilot never names (the counters) and on the fields of STAT it never names
  (the states of the other actors).
\<close>

definition only_pilotStat_changed ::
  "('a, 'b) FULL_STAT_scheme \<Rightarrow> ('a, 'b) FULL_STAT_scheme \<Rightarrow> bool" where
  "only_pilotStat_changed s s' =
     (nFlight s' = nFlight s \<and> finished s' = finished s
      \<and> FULL_STAT.more s' = FULL_STAT.more s \<and> STAT.more (st s') = STAT.more (st s))"

definition only_pilotStat_nFlight_changed ::
  "('a, 'b) FULL_STAT_scheme \<Rightarrow> ('a, 'b) FULL_STAT_scheme \<Rightarrow> bool" where
  "only_pilotStat_nFlight_changed s s' =
     (finished s' = finished s
      \<and> FULL_STAT.more s' = FULL_STAT.more s \<and> STAT.more (st s') = STAT.more (st s))"

subsection \<open>Outcomes of a call\<close>

text \<open>
  \<open>triple P f Q X B\<close>: run from a world that satisfies \<open>P\<close>, the call \<open>f\<close> leaves a world
  that satisfies \<open>Q\<close> when it returns, \<open>X c\<close> when it ends the process with code \<open>c\<close>,
  and \<open>B\<close> when it never returns.
\<close>

definition triple ::
  "(('a, 'b) world \<Rightarrow> bool) \<Rightarrow> (('a, 'b) world \<Rightarrow> ('r, ('a, 'b) world) res) \<Rightarrow>
   (('a, 'b) world \<Rightarrow> bool) \<Rightarrow> (int \<Rightarrow> ('a, 'b) world \<Rightarrow> bool) \<Rightarrow>
   (('a, 'b) world \<Rightarrow> bool) \<Rightarrow> bool" where
  "triple P f Q X B =
     (\<forall>w. P w \<longrightarrow>
        (case f w of Return r w' \<Rightarrow> Q w' | Exited c w' \<Rightarrow> X c w' | Blocked w' \<Rightarrow> B w'))"

subsection \<open>The mutex along a run\<close>

text \<open>
  A world is \<open>calm\<close> when nothing the Pilot did outside the mutex section (an operation
  on a rendezvous semaphore, a sleep, a read of \<open>finished\<close>) happened while it held the
  mutex, and \<open>released\<close> when moreover it does not hold the mutex now.
\<close>

definition calm :: "('a, 'b) world \<Rightarrow> bool" where
  "calm w = outside_mutex unlocked_action False (trace w)"

definition released :: "('a, 'b) world \<Rightarrow> bool" where
  "released w = (calm w \<and> \<not> held (trace w))"

subsection \<open>Failures of the semaphore operations\<close>

text \<open>
  A semaphore operation has \<open>failed\<close> when it returned \<open>-1\<close>. A trace obeys
  \<open>abort_on_failure\<close> when a failed operation is followed by the diagnostic and by
  nothing else. \<open>failure_is_fatal out evs\<close> adds that a run with a failed operation ends
  the process with EXIT_FAILURE.
\<close>

fun failed :: "event \<Rightarrow> bool" where
  "failed (SemDown s (Some r)) = (r = - 1)"
| "failed (SemUp s r) = (r = - 1)"
| "failed _ = False"

fun only_diagnostic :: "event list \<Rightarrow> bool" where
  "only_diagnostic [Perror msg] = True"
| "only_diagnostic _ = False"

fun abort_on_failure :: "event list \<Rightarrow> bool" where
  "abort_on_failure [] = True"
| "abort_on_failure (e # es) = (if failed e then only_diagnostic es else abort_on_failure es)"

definition failure_is_fatal :: "('r, ('a, 'b) world) res \<Rightarrow> event list \<Rightarrow> bool" where
  "failure_is_fatal out evs =
     (abort_on_failure evs \<and> (list_ex failed evs \<longrightarrow> exited_with EXIT_FAILURE out))"

definition sound :: "('a, 'b) world \<Rightarrow> bool" where
  "sound w = (\<not> list_ex failed (trace w))"

fun aborted_rev :: "event list \<Rightarrow> bool" where
  "aborted_rev (Perror msg # e # pre) = (failed e \<and> \<not> list_ex failed pre)"
| "aborted_rev _ = False"

definition aborted :: "int \<Rightarrow> ('a, 'b) world \<Rightarrow> bool" where
  "aborted c w = (c = EXIT_FAILURE \<and> aborted_rev (rev (trace w)))"

subsection \<open>The end of the air lift\<close>

text \<open>
  A trace is \<open>quiet_after_finished\<close> when the first read of \<open>finished\<close> that gave true is
  followed only by the detach of the region and its diagnostic.
\<close>

fun closing :: "event \<Rightarrow> bool" where
  "closing (ShmemDettach r) = True"
| "closing (Perror msg) = True"
| "closing _ = False"

fun quiet_after_finished :: "event list \<Rightarrow> bool" where
  "quiet_after_finished [] = True"
| "quiet_after_finished (e # es) =
     (if e = ReadFinished True then list_all closing es else quiet_after_finished es)"

definition unfinished :: "('a, 'b) world \<Rightarrow> bool" where
  "unfinished w = (ReadFinished True \<notin> set (trace w))"

definition just_finished :: "('a, 'b) world \<Rightarrow> bool" where
  "just_finished w =
     (trace w \<noteq> [] \<and> last (trace w) = ReadFinished True
      \<and> ReadFinished True \<notin> set (butlast (trace w)))"

subsection \<open>The boundaries of the cycles\<close>

text \<open>
  The stages of the loop as the trace shows them. At \<open>Top\<close> the only thing the Pilot may
  do is read \<open>finished\<close>: a read of true leads to \<open>Finished\<close>, where nothing more may
  happen in the loop, a read of false to \<open>Outbound\<close>. From there the store of
  FLYING_BACK opens the cycle (\<open>InCycle\<close>), the log of the return announces its end
  (\<open>Landing\<close>) and the release of the mutex that follows closes it, back to \<open>Top\<close>.
  No read of \<open>finished\<close> is allowed anywhere else, and no second store of FLYING_BACK
  inside a cycle. \<open>reads_at_boundaries tr\<close>: the trace \<open>tr\<close> follows these stages from
  \<open>Top\<close>.
\<close>

datatype stage = Top | Outbound | InCycle | Landing | Finished

fun step :: "stage \<Rightarrow> event \<Rightarrow> stage option" where
  "step Top (ReadFinished b) = Some (if b then Finished else Outbound)"
| "step Top e = None"
| "step Finished e = None"
| "step s (ReadFinished b) = None"
| "step Outbound (StorePilotStat p) = (if p = FLYING_BACK then Some InCycle else None)"
| "step Outbound e = Some Outbound"
| "step InCycle (StorePilotStat p) = (if p = FLYING_BACK then None else Some InCycle)"
| "step InCycle SaveFlightReturning = Some Landing"
| "step InCycle e = Some InCycle"
| "step Landing (SemUp s r) =
     (if s = mutex then Some (if r \<noteq> - 1 then Top else Landing) else None)"
| "step Landing (Perror msg) = Some Landing"
| "step Landing e = None"

fun run_stages :: "stage \<Rightarrow> event list \<Rightarrow> stage option" where
  "run_stages s [] = Some s"
| "run_stages s (e # es) = (case step s e of None \<Rightarrow> None | Some s' \<Rightarrow> run_stages s' es)"

definition reads_at_boundaries :: "event list \<Rightarrow> bool" where
  "reads_at_boundaries tr = (run_stages Top tr \<noteq> None)"

definition at_stage :: "stage \<Rightarrow> ('a, 'b) world \<Rightarrow> bool" where
  "at_stage s w = (run_stages Top (trace w) = Some s)"

definition in_stages :: "('a, 'b) world \<Rightarrow> bool" where
  "in_stages w = reads_at_boundaries (trace w)"

text \<open>
  \<open>after_cycles MAXFLIGHT k w\<close> is the world at the top of the loop after \<open>k\<close> cycles
  that each found \<open>finished\<close> false and ran to their end, started from \<open>w\<close>.
\<close>

fun after_cycles :: "real \<Rightarrow> nat \<Rightarrow> ('a, 'b) world \<Rightarrow> ('a, 'b) world option" where
  "after_cycles MAXFLIGHT 0 w = Some w"
| "after_cycles MAXFLIGHT (Suc k) w =
     (if fst (isFinished w) then None
      else case cycle MAXFLIGHT (snd (isFinished w)) of
             Return u w2 \<Rightarrow> after_cycles MAXFLIGHT k w2
           | Exited c w2 \<Rightarrow> None
           | Blocked w2 \<Rightarrow> None)"

text \<open>
  \<open>detaches_at_end out tr\<close>: the run returned from \<open>main\<close> and its trace ends with a read
  of true, the detach of the region and, when the detach failed, its diagnostic; the
  value returned is EXIT_SUCCESS in the first case and EXIT_FAILURE in the second.
\<close>

fun detached_rev :: "int \<Rightarrow> event list \<Rightarrow> bool" where
  "detached_rev c (ShmemDettach r # ReadFinished b # pre) = (b \<and> r \<noteq> - 1 \<and> c = EXIT_SUCCESS)"
| "detached_rev c (Perror msg # ShmemDettach r # ReadFinished b # pre) =
     (b \<and> r = - 1 \<and> c = EXIT_FAILURE)"
| "detached_rev c tr = False"

fun detaches_at_end :: "(int, 'w) res \<Rightarrow> event list \<Rightarrow> bool" where
  "detaches_at_end (Return c w) tr = detached_rev c (rev tr)"
| "detaches_at_end out tr = False"

subsection \<open>The phases of the Pilot\<close>









subsection \<open>One whole flight\<close>

text \<open>
  What the Pilot does in its first cycle when every call succeeds and \<open>random\<close> answers
  1073741823 with a MAXFLIGHT of 100.
\<close>

definition full_cycle_events :: "event list" where
  "full_cycle_events =
     [SemDown mutex (Some 0), StorePilotStat FLYING_BACK, SaveState, SemUp mutex 0, Usleep 149,
      SemDown mutex (Some 0), StorePilotStat READY_FOR_BOARDING, StoreNFlight 1, SaveState,
      SaveStartBoarding, SemUp mutex 0, SemUp readyForBoarding 0,
      SemDown mutex (Some 0), StorePilotStat WAITING_FOR_BOARDING, SaveState, SemUp mutex 0,
      SemDown readyToFlight (Some 0),
      SemDown mutex (Some 0), StorePilotStat FLYING, SaveState, SemUp mutex 0, Usleep 149,
      SemDown mutex (Some 0), StorePilotStat DROPING_PASSENGERS, SaveFlightArrived, SaveState,
      SemUp mutex 0, SemUp passengersWaitInFlight 0, SemDown planeEmpty (Some 0),
      SemDown mutex (Some 0), SaveFlightReturning, SemUp mutex 0]"

section \<open>Running one operation\<close>

lemmas pilot_defs = semDown_def semUp_def shmemDettach_def random_def usleep_def perror_def
  exit_def saveState_def saveStartBoarding_def saveFlightArrived_def saveFlightReturning_def
  store_pilotStat_def incr_nFlight_def emit_def tick_def Let_def

lemmas reply_defs = rc_def woken_def eval_nat_numeral

lemmas boot_defs = boot_def all_ok_def fails_at_def never_at_def mid_random_def RAND_MAX_def
  EXIT_FAILURE_def EXIT_SUCCESS_def

lemma emit_sel:
  "fSt (emit e w) = fSt w" "trace (emit e w) = trace w @ [e]" "clock (emit e w) = clock w"
  "replies (emit e w) = replies w" "randoms (emit e w) = randoms w" "others (emit e w) = others w"
  by (simp_all add: emit_def)

lemma tick_sel:
  "fSt (tick w) = fSt w" "trace (tick w) = trace w" "clock (tick w) = Suc (clock w)"
  "replies (tick w) = replies w" "randoms (tick w) = randoms w" "others (tick w) = others w"
  by (simp_all add: tick_def)

lemma store_pilotStat_sel:
  "fSt (store_pilotStat p w) = (fSt w)\<lparr>st := (st (fSt w))\<lparr>pilotStat := p\<rparr>\<rparr>"
  "trace (store_pilotStat p w) = trace w @ [StorePilotStat p]"
  "clock (store_pilotStat p w) = clock w"
  "replies (store_pilotStat p w) = replies w"
  "randoms (store_pilotStat p w) = randoms w"
  "others (store_pilotStat p w) = others w"
  by (simp_all add: store_pilotStat_def emit_def)

lemma incr_nFlight_sel:
  "fSt (incr_nFlight w) = (fSt w)\<lparr>nFlight := nFlight (fSt w) + 1\<rparr>"
  "trace (incr_nFlight w) = trace w @ [StoreNFlight (nFlight (fSt w) + 1)]"
  "clock (incr_nFlight w) = clock w"
  "replies (incr_nFlight w) = replies w"
  "randoms (incr_nFlight w) = randoms w"
  "others (incr_nFlight w) = others w"
  by (simp_all add: incr_nFlight_def emit_def)

lemmas log_defs = perror_def saveState_def saveStartBoarding_def saveFlightArrived_def
  saveFlightReturning_def

lemmas call_defs = semDown_def semUp_def shmemDettach_def random_def usleep_def exit_def Let_def

lemmas run_simps = call_defs log_defs emit_sel tick_sel store_pilotStat_sel incr_nFlight_sel

lemma boot_sel:
  "fSt (boot rs n) = \<lparr>st = \<lparr>pilotStat = FLYING_BACK\<rparr>, nFlight = 0, finished = False\<rparr>"
  "trace (boot rs n) = []"
  "clock (boot rs n) = 0"
  "replies (boot rs n) = rs"
  "rc (boot rs n) k = ret (rs k)"
  "woken (boot rs n) k = wakes (rs k)"
  "randoms (boot rs n) k = 1073741823"
  by (simp_all add: boot_def rc_def woken_def mid_random_def)

lemma reply_sel:
  "ret (all_ok k) = 0" "wakes (all_ok k) = True"
  "ret (fails_at n k) = (if k = n then - 1 else 0)" "wakes (fails_at n k) = True"
  "ret (never_at n k) = 0" "wakes (never_at n k) = (k \<noteq> n)"
  by (simp_all add: all_ok_def fails_at_def never_at_def)

lemma flight_Return_iff:
  "(flight MAXFLIGHT go w = Return u w') =
   (woken w 0 \<and> rc w 0 \<noteq> - 1 \<and> rc w 1 \<noteq> - 1 \<and>
    w' = w\<lparr>fSt := (fSt w)\<lparr>st := (st (fSt w))\<lparr>pilotStat := (if go then FLYING else FLYING_BACK)\<rparr>\<rparr>,
           trace := trace w @
             [SemDown mutex (Some (rc w 0)),
              StorePilotStat (if go then FLYING else FLYING_BACK),
              SaveState,
              SemUp mutex (rc w 1),
              Usleep (word_of_int
                \<lfloor>(MAXFLIGHT * of_int (randoms w (clock w + 2))) / of_int RAND_MAX + 100\<rfloor>)],
           clock := clock w + 4\<rparr>)"
  by (auto simp: flight_def pilot_defs reply_defs)

lemma signalReadyForBoarding_Return_iff:
  "(signalReadyForBoarding w = Return u w') =
   (woken w 0 \<and> rc w 0 \<noteq> - 1 \<and> rc w 1 \<noteq> - 1 \<and> rc w 2 \<noteq> - 1 \<and>
    w' = w\<lparr>fSt := (fSt w)\<lparr>st := (st (fSt w))\<lparr>pilotStat := READY_FOR_BOARDING\<rparr>,
                          nFlight := nFlight (fSt w) + 1\<rparr>,
           trace := trace w @
             [SemDown mutex (Some (rc w 0)),
              StorePilotStat READY_FOR_BOARDING,
              StoreNFlight (nFlight (fSt w) + 1),
              SaveState,
              SaveStartBoarding,
              SemUp mutex (rc w 1),
              SemUp readyForBoarding (rc w 2)],
           clock := clock w + 3\<rparr>)"
  by (auto simp: signalReadyForBoarding_def pilot_defs reply_defs)

lemma waitUntilReadyToFlight_Return_iff:
  "(waitUntilReadyToFlight w = Return u w') =
   (woken w 0 \<and> rc w 0 \<noteq> - 1 \<and> rc w 1 \<noteq> - 1 \<and> woken w 2 \<and> rc w 2 \<noteq> - 1 \<and>
    w' = w\<lparr>fSt := (fSt w)\<lparr>st := (st (fSt w))\<lparr>pilotStat := WAITING_FOR_BOARDING\<rparr>\<rparr>,
           trace := trace w @
             [SemDown mutex (Some (rc w 0)),
              StorePilotStat WAITING_FOR_BOARDING,
              SaveState,
              SemUp mutex (rc w 1),
              SemDown readyToFlight (Some (rc w 2))],
           clock := clock w + 3\<rparr>)"
  by (auto simp: waitUntilReadyToFlight_def pilot_defs reply_defs)

lemma waitUntilReadyToFlight_Blocked:
  "woken w 0 \<Longrightarrow> rc w 0 \<noteq> - 1 \<Longrightarrow> rc w 1 \<noteq> - 1 \<Longrightarrow> \<not> woken w 2 \<Longrightarrow>
   waitUntilReadyToFlight w =
     Blocked (w\<lparr>fSt := (fSt w)\<lparr>st := (st (fSt w))\<lparr>pilotStat := WAITING_FOR_BOARDING\<rparr>\<rparr>,
                trace := trace w @
                  [SemDown mutex (Some (rc w 0)),
                   StorePilotStat WAITING_FOR_BOARDING,
                   SaveState,
                   SemUp mutex (rc w 1),
                   SemDown readyToFlight None],
                clock := clock w + 3\<rparr>)"
  by (simp add: waitUntilReadyToFlight_def pilot_defs reply_defs)

lemma dropPassengersAtTarget_Return_iff:
  "(dropPassengersAtTarget w = Return u w') =
   (woken w 0 \<and> rc w 0 \<noteq> - 1 \<and> rc w 1 \<noteq> - 1 \<and> rc w 2 \<noteq> - 1 \<and>
    woken w 3 \<and> rc w 3 \<noteq> - 1 \<and> woken w 4 \<and> rc w 4 \<noteq> - 1 \<and> rc w 5 \<noteq> - 1 \<and>
    w' = w\<lparr>fSt := (fSt w)\<lparr>st := (st (fSt w))\<lparr>pilotStat := DROPING_PASSENGERS\<rparr>\<rparr>,
           trace := trace w @
             [SemDown mutex (Some (rc w 0)),
              StorePilotStat DROPING_PASSENGERS,
              SaveFlightArrived,
              SaveState,
              SemUp mutex (rc w 1),
              SemUp passengersWaitInFlight (rc w 2),
              SemDown planeEmpty (Some (rc w 3)),
              SemDown mutex (Some (rc w 4)),
              SaveFlightReturning,
              SemUp mutex (rc w 5)],
           clock := clock w + 6\<rparr>)"
  by (auto simp: dropPassengersAtTarget_def pilot_defs reply_defs)

lemma dropPassengersAtTarget_Blocked:
  "woken w 0 \<Longrightarrow> rc w 0 \<noteq> - 1 \<Longrightarrow> rc w 1 \<noteq> - 1 \<Longrightarrow> rc w 2 \<noteq> - 1 \<Longrightarrow> \<not> woken w 3 \<Longrightarrow>
   dropPassengersAtTarget w =
     Blocked (w\<lparr>fSt := (fSt w)\<lparr>st := (st (fSt w))\<lparr>pilotStat := DROPING_PASSENGERS\<rparr>\<rparr>,
                trace := trace w @
                  [SemDown mutex (Some (rc w 0)),
                   StorePilotStat DROPING_PASSENGERS,
                   SaveFlightArrived,
                   SaveState,
                   SemUp mutex (rc w 1),
                   SemUp passengersWaitInFlight (rc w 2),
                   SemDown planeEmpty None],
                clock := clock w + 4\<rparr>)"
  by (simp add: dropPassengersAtTarget_def pilot_defs reply_defs)

lemma uint_word_of_int_32:
  "0 \<le> y \<Longrightarrow> y < 2 ^ 32 \<Longrightarrow> uint (word_of_int y :: 32 word) = y"
  by (simp add: uint_word_of_int_eq take_bit_int_eq_self)

lemma travel_bounds:
  fixes M :: real and x :: int
  assumes "0 \<le> M" "M + 100 < 2 ^ 32" "0 \<le> x" "x \<le> RAND_MAX"
  shows "100 \<le> uint (word_of_int \<lfloor>(M * of_int x) / of_int RAND_MAX + 100\<rfloor> :: 32 word)
       \<and> real_of_int (uint (word_of_int \<lfloor>(M * of_int x) / of_int RAND_MAX + 100\<rfloor> :: 32 word))
           \<le> M + 100"
proof -
  let ?q = "(M * of_int x) / of_int RAND_MAX"
  let ?y = "\<lfloor>?q + 100\<rfloor>"
  have pos: "(0::real) < of_int RAND_MAX" by (simp add: RAND_MAX_def)
  have q0: "0 \<le> ?q" using assms pos by simp
  have "M * of_int x \<le> M * of_int RAND_MAX"
    using assms by (intro mult_left_mono) auto
  then have q1: "?q \<le> M" using pos by (simp add: pos_divide_le_eq)
  have lo: "100 \<le> ?y" using q0 by (simp add: le_floor_iff)
  have "of_int ?y \<le> ?q + 100" by (rule of_int_floor_le)
  with q1 have hi: "real_of_int ?y \<le> M + 100" by linarith
  with assms(2) have "real_of_int ?y < 2 ^ 32" by linarith
  then have up: "?y < 2 ^ 32" by (metis of_int_less_iff of_int_numeral of_int_power)
  from lo have "0 \<le> ?y" by linarith
  then have u: "uint (word_of_int ?y :: 32 word) = ?y"
    using up by (rule uint_word_of_int_32)
  show ?thesis unfolding u using lo hi by blast
qed

section \<open>Composing the operations\<close>

lemma triple_andThen:
  assumes "triple P f Q X B" and "\<And>r. triple Q (g r) R X B"
  shows "triple P (\<lambda>w. andThen (f w) g) R X B"
proof (unfold triple_def, intro allI impI)
  fix w assume "P w"
  with assms(1) have f: "case f w of Return r w' \<Rightarrow> Q w' | Exited c w' \<Rightarrow> X c w' | Blocked w' \<Rightarrow> B w'"
    by (simp add: triple_def)
  show "case andThen (f w) g of Return r w' \<Rightarrow> R w' | Exited c w' \<Rightarrow> X c w' | Blocked w' \<Rightarrow> B w'"
  proof (cases "f w")
    case (Return r w1)
    with f have "Q w1" by simp
    with assms(2) [of r] Return show ?thesis by (simp add: triple_def)
  next
    case (Exited c w1)
    with f show ?thesis by simp
  next
    case (Blocked w1)
    with f show ?thesis by simp
  qed
qed

lemma cycle_triple:
  assumes "triple P0 (flight M False) P1 X B"
    and "triple P1 signalReadyForBoarding P2 X B"
    and "triple P2 waitUntilReadyToFlight P3 X B"
    and "triple P3 (flight M True) P4 X B"
    and "triple P4 dropPassengersAtTarget P5 X B"
  shows "triple P0 (cycle M) P5 X B"
  unfolding cycle_def
  by (rule triple_andThen [OF assms(1)], rule triple_andThen [OF assms(2)],
      rule triple_andThen [OF assms(3)], rule triple_andThen [OF assms(4)], rule assms(5))

lemma life_cycle_triple:
  assumes body: "triple I (cycle M) I X B"
    and go_on: "\<And>w. I w \<Longrightarrow> \<not> fst (isFinished w) \<Longrightarrow> I (snd (isFinished w))"
    and stop: "\<And>w. I w \<Longrightarrow> fst (isFinished w) \<Longrightarrow> F (snd (isFinished w))"
  shows "I w \<Longrightarrow> life_cycle M fuel w = Some out \<Longrightarrow>
         (case out of Return r w' \<Rightarrow> F w' | Exited c w' \<Rightarrow> X c w' | Blocked w' \<Rightarrow> B w')"
proof (induction fuel arbitrary: w)
  case 0
  then show ?case by simp
next
  case (Suc n)
  obtain b w1 where r: "isFinished w = (b, w1)" by (cases "isFinished w")
  show ?case
  proof (cases b)
    case True
    with r Suc.prems stop [of w] show ?thesis by auto
  next
    case False
    with r Suc.prems(1) go_on [of w] have I1: "I w1" by simp
    from body I1
    have c: "case cycle M w1 of Return r w' \<Rightarrow> I w' | Exited c w' \<Rightarrow> X c w' | Blocked w' \<Rightarrow> B w'"
      unfolding triple_def by blast
    show ?thesis
    proof (cases "cycle M w1")
      case (Return u w2)
      with c have "I w2" by simp
      moreover from Suc.prems(2) r False Return have "life_cycle M n w2 = Some out" by simp
      ultimately show ?thesis by (rule Suc.IH)
    next
      case (Exited c' w2)
      with c Suc.prems(2) r False show ?thesis by auto
    next
      case (Blocked w2)
      with c Suc.prems(2) r False show ?thesis by auto
    qed
  qed
qed

lemma outside_mutex_append:
  "outside_mutex P h (xs @ ys) = (outside_mutex P h xs \<and> outside_mutex P (foldl holding h xs) ys)"
  by (induction xs arbitrary: h) auto

lemma outside_mutex_mono:
  "outside_mutex P h tr \<Longrightarrow> (\<And>e. Q e \<Longrightarrow> P e) \<Longrightarrow> outside_mutex Q h tr"
  by (induction tr arbitrary: h) auto

lemmas calm_simps = released_def calm_def held_def outside_mutex_append holding_def
  unlocked_action_def triple_def

lemma flight_calm: "triple released (flight M go) released (\<lambda>c. calm) calm"
  by (simp add: flight_def run_simps calm_simps)

lemma signalReadyForBoarding_calm:
  "triple released signalReadyForBoarding released (\<lambda>c. calm) calm"
  by (simp add: signalReadyForBoarding_def run_simps calm_simps)

lemma waitUntilReadyToFlight_calm:
  "triple released waitUntilReadyToFlight released (\<lambda>c. calm) calm"
  by (simp add: waitUntilReadyToFlight_def run_simps calm_simps)

lemma dropPassengersAtTarget_calm:
  "triple released dropPassengersAtTarget released (\<lambda>c. calm) calm"
  by (simp add: dropPassengersAtTarget_def run_simps calm_simps)

lemma cycle_calm: "triple released (cycle M) released (\<lambda>c. calm) calm"
  by (rule cycle_triple [OF flight_calm signalReadyForBoarding_calm waitUntilReadyToFlight_calm
        flight_calm dropPassengersAtTarget_calm])

lemma isFinished_sel:
  "fst (isFinished w) = finished (others w (clock w) (fSt w))"
  "trace (snd (isFinished w)) = trace w @ [ReadFinished (finished (others w (clock w) (fSt w)))]"
  "clock (snd (isFinished w)) = clock w"
  "replies (snd (isFinished w)) = replies w"
  "randoms (snd (isFinished w)) = randoms w"
  "others (snd (isFinished w)) = others w"
  "fSt (snd (isFinished w)) = others w (clock w) (fSt w)"
  by (simp_all add: isFinished_def Let_def emit_def)

lemma isFinished_calm: "released w \<Longrightarrow> released (snd (isFinished w))"
  by (simp add: isFinished_sel calm_simps)

lemma life_cycle_calm:
  assumes "released w" and "life_cycle M fuel w = Some out"
  shows "case out of Return r w' \<Rightarrow> released w' | Exited c w' \<Rightarrow> calm w' | Blocked w' \<Rightarrow> calm w'"
  using cycle_calm isFinished_calm isFinished_calm assms
  by (rule life_cycle_triple)

lemma main_calm:
  assumes "released w" and "main M fuel w = Some out"
  shows "calm (world_of out)"
proof (cases "life_cycle M fuel w")
  case None
  with assms(2) show ?thesis by (simp add: main_def)
next
  case (Some lc)
  from life_cycle_calm [OF assms(1) Some]
  show ?thesis using assms(2) Some
    by (cases lc) (auto simp: main_def run_simps calm_simps split: if_splits)
qed

lemma released_start: "trace w = [] \<Longrightarrow> released w"
  by (simp add: calm_simps)

lemmas sound_simps = sound_def aborted_def triple_def

lemma flight_sound: "triple sound (flight M go) sound aborted sound"
  by (simp add: flight_def run_simps sound_simps)

lemma signalReadyForBoarding_sound: "triple sound signalReadyForBoarding sound aborted sound"
  by (simp add: signalReadyForBoarding_def run_simps sound_simps)

lemma waitUntilReadyToFlight_sound: "triple sound waitUntilReadyToFlight sound aborted sound"
  by (simp add: waitUntilReadyToFlight_def run_simps sound_simps)

lemma dropPassengersAtTarget_sound: "triple sound dropPassengersAtTarget sound aborted sound"
  by (simp add: dropPassengersAtTarget_def run_simps sound_simps)

lemma cycle_sound: "triple sound (cycle M) sound aborted sound"
  by (rule cycle_triple [OF flight_sound signalReadyForBoarding_sound
        waitUntilReadyToFlight_sound flight_sound dropPassengersAtTarget_sound])

lemma isFinished_sound: "sound w \<Longrightarrow> sound (snd (isFinished w))"
  by (simp add: isFinished_sel sound_def)

lemma life_cycle_sound:
  assumes "sound w" and "life_cycle M fuel w = Some out"
  shows "case out of Return r w' \<Rightarrow> sound w' | Exited c w' \<Rightarrow> aborted c w' | Blocked w' \<Rightarrow> sound w'"
  using cycle_sound isFinished_sound isFinished_sound assms
  by (rule life_cycle_triple)

lemma main_sound:
  assumes "sound w" and "main M fuel w = Some out"
  shows "case out of Return r w' \<Rightarrow> sound w' | Exited c w' \<Rightarrow> aborted c w' | Blocked w' \<Rightarrow> sound w'"
proof (cases "life_cycle M fuel w")
  case None
  with assms(2) show ?thesis by (simp add: main_def)
next
  case (Some lc)
  from life_cycle_sound [OF assms(1) Some]
  show ?thesis using assms(2) Some
    by (cases lc) (auto simp: main_def run_simps sound_def split: if_splits)
qed

lemma abort_on_failure_sound: "\<not> list_ex failed tr \<Longrightarrow> abort_on_failure tr"
  by (induction tr) auto

lemma abort_on_failure_snoc:
  "\<not> list_ex failed pre \<Longrightarrow> failed e \<Longrightarrow> abort_on_failure (pre @ [e, Perror msg])"
  by (induction pre) auto

lemma aborted_rev_abort: "aborted_rev (rev tr) \<Longrightarrow> abort_on_failure tr"
proof -
  assume a: "aborted_rev (rev tr)"
  then obtain msg e pre where r: "rev tr = Perror msg # e # pre"
    by (cases "rev tr" rule: aborted_rev.cases) auto
  then have t: "tr = rev pre @ [e, Perror msg]"
    by (metis append.assoc append_Cons append_Nil rev.simps(2) rev_rev_ident)
  from a r have "failed e" "\<not> list_ex failed (rev pre)" by simp_all
  then show ?thesis unfolding t by (rule abort_on_failure_snoc [rotated -1])
qed

lemmas eval_defs = main_def isFinished_def cycle_def flight_def signalReadyForBoarding_def
  waitUntilReadyToFlight_def dropPassengersAtTarget_def pilot_defs boot_defs

lemma sound_start: "trace w = [] \<Longrightarrow> sound w"
  by (simp add: sound_def)

lemmas unfinished_simps = unfinished_def triple_def

lemma flight_unfinished:
  "triple unfinished (flight M go) unfinished (\<lambda>c. unfinished) unfinished"
  by (simp add: flight_def run_simps unfinished_simps)

lemma signalReadyForBoarding_unfinished:
  "triple unfinished signalReadyForBoarding unfinished (\<lambda>c. unfinished) unfinished"
  by (simp add: signalReadyForBoarding_def run_simps unfinished_simps)

lemma waitUntilReadyToFlight_unfinished:
  "triple unfinished waitUntilReadyToFlight unfinished (\<lambda>c. unfinished) unfinished"
  by (simp add: waitUntilReadyToFlight_def run_simps unfinished_simps)

lemma dropPassengersAtTarget_unfinished:
  "triple unfinished dropPassengersAtTarget unfinished (\<lambda>c. unfinished) unfinished"
  by (simp add: dropPassengersAtTarget_def run_simps unfinished_simps)

lemma cycle_unfinished: "triple unfinished (cycle M) unfinished (\<lambda>c. unfinished) unfinished"
  by (rule cycle_triple [OF flight_unfinished signalReadyForBoarding_unfinished
        waitUntilReadyToFlight_unfinished flight_unfinished dropPassengersAtTarget_unfinished])

lemma isFinished_unfinished:
  "unfinished w \<Longrightarrow> \<not> fst (isFinished w) \<Longrightarrow> unfinished (snd (isFinished w))"
  by (simp add: isFinished_sel unfinished_def)

lemma isFinished_just_finished:
  "unfinished w \<Longrightarrow> fst (isFinished w) \<Longrightarrow> just_finished (snd (isFinished w))"
  by (simp add: isFinished_sel unfinished_def just_finished_def)

lemma life_cycle_unfinished:
  assumes "unfinished w" and "life_cycle M fuel w = Some out"
  shows "case out of Return r w' \<Rightarrow> just_finished w' | Exited c w' \<Rightarrow> unfinished w'
         | Blocked w' \<Rightarrow> unfinished w'"
  using cycle_unfinished isFinished_unfinished isFinished_just_finished assms
  by (rule life_cycle_triple)

lemma quiet_unfinished: "ReadFinished True \<notin> set tr \<Longrightarrow> quiet_after_finished tr"
  by (induction tr) auto

lemma quiet_after_last:
  "ReadFinished True \<notin> set pre \<Longrightarrow>
   quiet_after_finished (pre @ ReadFinished True # es) = list_all closing es"
  by (induction pre) auto

lemma just_finished_split:
  "just_finished w \<Longrightarrow>
   trace w = butlast (trace w) @ [ReadFinished True] \<and> ReadFinished True \<notin> set (butlast (trace w))"
  by (metis just_finished_def append_butlast_last_id)

lemma unfinished_start: "trace w = [] \<Longrightarrow> unfinished w"
  by (simp add: unfinished_def)

lemma main_quiet:
  assumes "unfinished w" and "main M fuel w = Some out"
  shows "quiet_after_finished (trace (world_of out))"
proof (cases "life_cycle M fuel w")
  case None
  with assms(2) show ?thesis by (simp add: main_def)
next
  case (Some lc)
  note l = life_cycle_unfinished [OF assms(1) Some]
  show ?thesis
  proof (cases lc)
    case (Return u w1)
    with l have "just_finished w1" by simp
    then obtain pre where p: "trace w1 = pre @ [ReadFinished True]"
      and n: "ReadFinished True \<notin> set pre"
      using just_finished_split by blast
    from assms(2) Some Return
    have "trace (world_of out) = pre @ ReadFinished True # [ShmemDettach (rc w1 0)]
        \<or> trace (world_of out) = pre @ ReadFinished True #
             [ShmemDettach (rc w1 0),
              Perror ''error on unmapping the shared region off the process address space'']"
      by (auto simp: main_def run_simps rc_def p split: if_splits)
    then show ?thesis using n by (auto simp: quiet_after_last)
  next
    case (Exited c w1)
    with l assms(2) Some show ?thesis
      by (auto simp: main_def unfinished_def quiet_unfinished)
  next
    case (Blocked w1)
    with l assms(2) Some show ?thesis
      by (auto simp: main_def unfinished_def quiet_unfinished)
  qed
qed

lemma main_finished:
  assumes "fst (isFinished w)"
  shows "main M (Suc n) w =
     Some (Return (if rc w 0 = - 1 then EXIT_FAILURE else EXIT_SUCCESS)
       (w\<lparr>fSt := others w (clock w) (fSt w),
          trace := trace w @ ReadFinished True # ShmemDettach (rc w 0) #
            (if rc w 0 = - 1
             then [Perror ''error on unmapping the shared region off the process address space'']
             else []),
          clock := clock w + 1\<rparr>))"
  using assms
  by (simp add: main_def isFinished_def pilot_defs rc_def split: prod.splits)








lemma tripleD:
  assumes "triple P f Q X B" and "P w" and "f w = Return r w'"
  shows "Q w'"
proof -
  from assms(1,2)
  have "case f w of Return r w' \<Rightarrow> Q w' | Exited c w' \<Rightarrow> X c w' | Blocked w' \<Rightarrow> B w'"
    by (simp add: triple_def)
  with assms(3) show ?thesis by simp
qed













lemma one_flight_loop:
  "\<exists>out. life_cycle 100 (Suc (Suc 0)) (boot all_ok 20) = Some out \<and> returned out
     \<and> trace (world_of out) = ReadFinished False # full_cycle_events @ [ReadFinished True]"
  by (simp add: eval_defs full_cycle_events_def)

lemma one_flight_run:
  "\<exists>out. main 100 (Suc (Suc 0)) (boot all_ok 20) = Some out \<and> returned out
     \<and> trace (world_of out) =
         ReadFinished False # full_cycle_events @ [ReadFinished True, ShmemDettach 0]"
  by (simp add: eval_defs full_cycle_events_def)


lemma one_cycle_returns: "\<exists>w'. cycle 100 (boot all_ok 20) = Return () w'"
  by (simp add: eval_defs)

lemma finished_at_once: "fst (isFinished (boot all_ok 0))"
  by (simp add: isFinished_sel boot_def)

lemma flight_nFlight:
  "triple (\<lambda>v. nFlight (fSt v) = k) (flight M go) (\<lambda>v. nFlight (fSt v) = k)
     (\<lambda>c v. True) (\<lambda>v. True)"
  by (simp add: flight_def run_simps triple_def)

lemma signalReadyForBoarding_nFlight:
  "triple (\<lambda>v. nFlight (fSt v) = k) signalReadyForBoarding (\<lambda>v. nFlight (fSt v) = k + 1)
     (\<lambda>c v. True) (\<lambda>v. True)"
  by (simp add: signalReadyForBoarding_def run_simps triple_def)

lemma waitUntilReadyToFlight_nFlight:
  "triple (\<lambda>v. nFlight (fSt v) = k) waitUntilReadyToFlight (\<lambda>v. nFlight (fSt v) = k)
     (\<lambda>c v. True) (\<lambda>v. True)"
  by (simp add: waitUntilReadyToFlight_def run_simps triple_def)

lemma dropPassengersAtTarget_nFlight:
  "triple (\<lambda>v. nFlight (fSt v) = k) dropPassengersAtTarget (\<lambda>v. nFlight (fSt v) = k)
     (\<lambda>c v. True) (\<lambda>v. True)"
  by (simp add: dropPassengersAtTarget_def run_simps triple_def)

lemma cycle_nFlight:
  "triple (\<lambda>v. nFlight (fSt v) = k) (cycle M) (\<lambda>v. nFlight (fSt v) = k + 1)
     (\<lambda>c v. True) (\<lambda>v. True)"
  by (rule cycle_triple [OF flight_nFlight signalReadyForBoarding_nFlight
        waitUntilReadyToFlight_nFlight flight_nFlight dropPassengersAtTarget_nFlight])

lemma cycle_counts_one_flight:
  assumes "cycle M w = Return u w'"
  shows "nFlight (fSt w') = nFlight (fSt w) + 1"
proof -
  have "nFlight (fSt w) = nFlight (fSt w)" ..
  with cycle_nFlight [of "nFlight (fSt w)" M]
  show ?thesis using assms by (rule tripleD)
qed

lemma run_stages_append:
  "run_stages s (xs @ ys) =
     (case run_stages s xs of None \<Rightarrow> None | Some s' \<Rightarrow> run_stages s' ys)"
  by (induction xs arbitrary: s) (auto split: option.splits)

lemmas stage_simps = triple_def at_stage_def in_stages_def reads_at_boundaries_def
  run_stages_append

lemma flight_back_stage:
  "triple (at_stage Outbound) (flight M False) (at_stage InCycle) (\<lambda>c. in_stages) in_stages"
  by (simp add: flight_def run_simps stage_simps)

lemma signalReadyForBoarding_stage:
  "triple (at_stage InCycle) signalReadyForBoarding (at_stage InCycle) (\<lambda>c. in_stages) in_stages"
  by (simp add: signalReadyForBoarding_def run_simps stage_simps)

lemma waitUntilReadyToFlight_stage:
  "triple (at_stage InCycle) waitUntilReadyToFlight (at_stage InCycle) (\<lambda>c. in_stages) in_stages"
  by (simp add: waitUntilReadyToFlight_def run_simps stage_simps)

lemma flight_go_stage:
  "triple (at_stage InCycle) (flight M True) (at_stage InCycle) (\<lambda>c. in_stages) in_stages"
  by (simp add: flight_def run_simps stage_simps)

lemma dropPassengersAtTarget_stage:
  "triple (at_stage InCycle) dropPassengersAtTarget (at_stage Top) (\<lambda>c. in_stages) in_stages"
  by (simp add: dropPassengersAtTarget_def run_simps stage_simps)

lemma cycle_stage:
  "triple (at_stage Outbound) (cycle M) (at_stage Top) (\<lambda>c. in_stages) in_stages"
  by (rule cycle_triple [OF flight_back_stage signalReadyForBoarding_stage
        waitUntilReadyToFlight_stage flight_go_stage dropPassengersAtTarget_stage])

lemma isFinished_stage:
  "at_stage Top w \<Longrightarrow>
   at_stage (if fst (isFinished w) then Finished else Outbound) (snd (isFinished w))"
  by (simp add: isFinished_sel at_stage_def run_stages_append)

lemma life_cycle_stage:
  "at_stage Top w \<Longrightarrow> life_cycle M fuel w = Some out \<Longrightarrow>
   (case out of Return r w' \<Rightarrow> at_stage Finished w' | Exited c w' \<Rightarrow> in_stages w'
    | Blocked w' \<Rightarrow> in_stages w')"
proof (induction fuel arbitrary: w)
  case 0
  then show ?case by simp
next
  case (Suc n)
  obtain b w1 where r: "isFinished w = (b, w1)" by (cases "isFinished w")
  with isFinished_stage [OF Suc.prems(1)]
  have s1: "at_stage (if b then Finished else Outbound) w1" by simp
  show ?case
  proof (cases b)
    case True
    with r s1 Suc.prems(2) show ?thesis by auto
  next
    case False
    with s1 have o: "at_stage Outbound w1" by simp
    from cycle_stage o
    have c: "case cycle M w1 of Return r w' \<Rightarrow> at_stage Top w' | Exited c w' \<Rightarrow> in_stages w'
        | Blocked w' \<Rightarrow> in_stages w'"
      unfolding triple_def by blast
    show ?thesis
    proof (cases "cycle M w1")
      case (Return u w2)
      with c have "at_stage Top w2" by simp
      moreover from Suc.prems(2) r False Return have "life_cycle M n w2 = Some out" by simp
      ultimately show ?thesis by (rule Suc.IH)
    next
      case (Exited c' w2)
      with c Suc.prems(2) r False show ?thesis by auto
    next
      case (Blocked w2)
      with c Suc.prems(2) r False show ?thesis by auto
    qed
  qed
qed

lemma at_stage_start: "trace w = [] \<Longrightarrow> at_stage Top w"
  by (simp add: at_stage_def)

lemma life_cycle_boundaries:
  assumes "trace w = []" and "life_cycle M fuel w = Some out"
  shows "reads_at_boundaries (trace (world_of out))"
  using life_cycle_stage [OF at_stage_start [OF assms(1)] assms(2)]
  by (cases out) (simp_all add: at_stage_def in_stages_def reads_at_boundaries_def)

lemma life_cycle_finished_iff:
  assumes "trace w = []" and "life_cycle M fuel w = Some out"
  shows "(ReadFinished True \<in> set (trace (world_of out))) = returned out"
  using life_cycle_unfinished [OF unfinished_start [OF assms(1)] assms(2)]
  by (cases out) (auto simp: unfinished_def just_finished_def dest: last_in_set)

lemma life_cycle_next:
  assumes "\<not> fst (isFinished w)" and "cycle M (snd (isFinished w)) = Return u w2"
  shows "life_cycle M (Suc n) w = life_cycle M n w2"
  using assms by (cases "isFinished w") simp_all

lemma main_next:
  assumes "\<not> fst (isFinished w)" and "cycle M (snd (isFinished w)) = Return u w2"
  shows "main M (Suc n) w = main M n w2"
  unfolding main_def life_cycle_next [OF assms] ..

lemma detached_rev_snoc:
  "detached_rev c (rev (pre @ [ReadFinished True, ShmemDettach r])) = (r \<noteq> - 1 \<and> c = EXIT_SUCCESS)"
  "detached_rev c (rev (pre @ [ReadFinished True, ShmemDettach r, Perror msg])) =
     (r = - 1 \<and> c = EXIT_FAILURE)"
  by simp_all

lemma main_detaches:
  assumes "unfinished w" and "main M fuel w = Some out"
  shows "(ReadFinished True \<in> set (trace (world_of out))) = returned out
       \<and> (returned out \<longrightarrow> detaches_at_end out (trace (world_of out)))"
proof (cases "life_cycle M fuel w")
  case None
  with assms(2) show ?thesis by (simp add: main_def)
next
  case (Some lc)
  note l = life_cycle_unfinished [OF assms(1) Some]
  show ?thesis
  proof (cases lc)
    case (Return u w1)
    with l have "just_finished w1" by simp
    then obtain pre where p: "trace w1 = pre @ [ReadFinished True]"
      using just_finished_split by blast
    from assms(2) Some Return
    have "(\<exists>w'. out = Return EXIT_SUCCESS w' \<and> rc w1 0 \<noteq> - 1
            \<and> trace w' = pre @ [ReadFinished True, ShmemDettach (rc w1 0)])
        \<or> (\<exists>w'. out = Return EXIT_FAILURE w' \<and> rc w1 0 = - 1
            \<and> trace w' = pre @ [ReadFinished True, ShmemDettach (rc w1 0),
                 Perror ''error on unmapping the shared region off the process address space''])"
      by (auto simp: main_def run_simps rc_def p split: if_splits)
    then show ?thesis
      by (auto simp del: rev_append rev.simps simp: detached_rev_snoc)
  next
    case (Exited c w1)
    with l assms(2) Some show ?thesis
      by (auto simp: main_def unfinished_def)
  next
    case (Blocked w1)
    with l assms(2) Some show ?thesis
      by (auto simp: main_def unfinished_def)
  qed
qed

lemma life_cycle_after_cycles:
  "after_cycles M k w = Some wk \<Longrightarrow> life_cycle M (k + n) w = life_cycle M n wk"
proof (induction k arbitrary: w)
  case 0
  then show ?case by simp
next
  case (Suc k)
  from Suc.prems have nf: "\<not> fst (isFinished w)" by (simp split: if_splits)
  with Suc.prems obtain u w2 where c: "cycle M (snd (isFinished w)) = Return u w2"
    and a: "after_cycles M k w2 = Some wk"
    by (cases "cycle M (snd (isFinished w))") simp_all
  have "life_cycle M (Suc k + n) w = life_cycle M (k + n) w2"
    using life_cycle_next [OF nf c, of "k + n"] by simp
  also have "\<dots> = life_cycle M n wk" using a by (rule Suc.IH)
  finally show ?case .
qed

lemma main_after_cycles:
  "after_cycles M k w = Some wk \<Longrightarrow> main M (k + n) w = main M n wk"
  unfolding main_def by (simp add: life_cycle_after_cycles)

lemma life_cycle_finished:
  "fst (isFinished w) \<Longrightarrow> life_cycle M (Suc n) w = Some (Return () (snd (isFinished w)))"
  by (cases "isFinished w") simp_all

lemma one_cycle_boundary:
  "\<exists>wk. after_cycles 100 (Suc 0) (boot all_ok 20) = Some wk \<and> fst (isFinished wk)
     \<and> trace wk = ReadFinished False # full_cycle_events \<and> rc wk 0 = 0"
  by (simp add: eval_defs full_cycle_events_def rc_def)

section \<open>The operations one by one\<close>

text \<open>
  Claim C4 (announceBoarding). A call of \<open>signalReadyForBoarding\<close> returns when its three
  semaphore operations succeed. A call that returns has, while holding the mutex, stored
  READY_FOR_BOARDING into the state of the Pilot and \<open>nFlight + 1\<close> into \<open>nFlight\<close> and
  saved the state; it has then released the mutex, and only then raised
  \<open>readyForBoarding\<close>, exactly once. A cycle that runs to its end leaves \<open>nFlight\<close> one
  higher than it found it.
\<close>

theorem signalReadyForBoarding_announces:
  "(woken w 0 \<and> rc w 0 \<noteq> - 1 \<and> rc w 1 \<noteq> - 1 \<and> rc w 2 \<noteq> - 1
      \<longrightarrow> (\<exists>w'. signalReadyForBoarding w = Return () w'))
   \<and> (\<forall>u w'. signalReadyForBoarding w = Return u w' \<longrightarrow>
         pilotStat (st (fSt w')) = READY_FOR_BOARDING
       \<and> nFlight (fSt w') = nFlight (fSt w) + 1
       \<and> trace w' = trace w @ new_events w w'
       \<and> new_events w w' =
           [SemDown mutex (Some (rc w 0)),
            StorePilotStat READY_FOR_BOARDING,
            StoreNFlight (nFlight (fSt w) + 1),
            SaveState,
            SaveStartBoarding,
            SemUp mutex (rc w 1),
            SemUp readyForBoarding (rc w 2)]
       \<and> rc w 0 \<noteq> - 1 \<and> rc w 1 \<noteq> - 1 \<and> rc w 2 \<noteq> - 1
       \<and> under_mutex accesses_state False (new_events w w')
       \<and> outside_mutex (raises readyForBoarding) False (new_events w w')
       \<and> length (filter (raises readyForBoarding) (new_events w w')) = 1)
   \<and> (\<forall>u w'. cycle MAXFLIGHT w = Return u w' \<longrightarrow> nFlight (fSt w') = nFlight (fSt w) + 1)"
  by (simp add: signalReadyForBoarding_Return_iff new_events_def holding_def
      cycle_counts_one_flight)

theorem signalReadyForBoarding_announces_witness:
  "(woken (boot all_ok 0) 0 \<and> rc (boot all_ok 0) 0 \<noteq> - 1 \<and> rc (boot all_ok 0) 1 \<noteq> - 1
     \<and> rc (boot all_ok 0) 2 \<noteq> - 1)
   \<and> signalReadyForBoarding (boot all_ok 0) =
       Return () (world_of (signalReadyForBoarding (boot all_ok 0)))
   \<and> pilotStat (st (fSt (world_of (signalReadyForBoarding (boot all_ok 0))))) = READY_FOR_BOARDING
   \<and> nFlight (fSt (world_of (signalReadyForBoarding (boot all_ok 0)))) = 1
   \<and> trace (world_of (signalReadyForBoarding (boot all_ok 0))) =
       [SemDown mutex (Some 0), StorePilotStat READY_FOR_BOARDING, StoreNFlight 1, SaveState,
        SaveStartBoarding, SemUp mutex 0, SemUp readyForBoarding 0]
   \<and> (\<exists>w'. cycle 100 (boot all_ok 20) = Return () w' \<and> nFlight (fSt w') = 1)"
proof -
  let ?w = "boot all_ok 0"
  have h: "woken ?w 0 \<and> rc ?w 0 \<noteq> - 1 \<and> rc ?w 1 \<noteq> - 1 \<and> rc ?w 2 \<noteq> - 1"
    by (simp add: boot_sel reply_sel)
  with signalReadyForBoarding_announces [of ?w]
  obtain w' where r: "signalReadyForBoarding ?w = Return () w'" by blast
  with signalReadyForBoarding_announces [of ?w]
  have "pilotStat (st (fSt w')) = READY_FOR_BOARDING
      \<and> nFlight (fSt w') = nFlight (fSt ?w) + 1
      \<and> trace w' = trace ?w @ new_events ?w w'
      \<and> new_events ?w w' =
           [SemDown mutex (Some (rc ?w 0)), StorePilotStat READY_FOR_BOARDING,
            StoreNFlight (nFlight (fSt ?w) + 1), SaveState, SaveStartBoarding,
            SemUp mutex (rc ?w 1), SemUp readyForBoarding (rc ?w 2)]"
    by blast
  then have c: "pilotStat (st (fSt w')) = READY_FOR_BOARDING
      \<and> nFlight (fSt w') = 1
      \<and> trace w' =
          [SemDown mutex (Some 0), StorePilotStat READY_FOR_BOARDING, StoreNFlight 1, SaveState,
           SaveStartBoarding, SemUp mutex 0, SemUp readyForBoarding 0]"
    by (simp add: boot_sel reply_sel)
  from one_cycle_returns obtain v' where k: "cycle 100 (boot all_ok 20) = Return () v'" by blast
  with signalReadyForBoarding_announces [of "boot all_ok 20" 100]
  have "nFlight (fSt v') = nFlight (fSt (boot all_ok 20)) + 1" by blast
  then have "nFlight (fSt v') = 1" by (simp add: boot_sel)
  with k have n: "\<exists>w'. cycle 100 (boot all_ok 20) = Return () w' \<and> nFlight (fSt w') = 1" by blast
  from h c n show ?thesis unfolding r by simp
qed

text \<open>
  Claim C5 (awaitBoardingComplete). A call of \<open>waitUntilReadyToFlight\<close> returns when its
  three semaphore operations succeed. When the mutex section went through and
  \<open>readyToFlight\<close> is never raised the call never returns: there is no other way out of
  the wait. A call that returns has, while holding the mutex, stored WAITING_FOR_BOARDING
  into the state of the Pilot and saved the state, then released the mutex, then waited on
  \<open>readyToFlight\<close>, which was raised; nothing else of the region has changed.
\<close>

theorem waitUntilReadyToFlight_awaits:
  "(woken w 0 \<and> rc w 0 \<noteq> - 1 \<and> rc w 1 \<noteq> - 1 \<and> woken w 2 \<and> rc w 2 \<noteq> - 1
      \<longrightarrow> (\<exists>w'. waitUntilReadyToFlight w = Return () w'))
   \<and> (woken w 0 \<and> rc w 0 \<noteq> - 1 \<and> rc w 1 \<noteq> - 1 \<and> \<not> woken w 2
      \<longrightarrow> (\<exists>w'. waitUntilReadyToFlight w = Blocked w'
             \<and> new_events w w' =
                 [SemDown mutex (Some (rc w 0)),
                  StorePilotStat WAITING_FOR_BOARDING,
                  SaveState,
                  SemUp mutex (rc w 1),
                  SemDown readyToFlight None]))
   \<and> (\<forall>u w'. waitUntilReadyToFlight w = Return u w' \<longrightarrow>
         fSt w' = (fSt w)\<lparr>st := (st (fSt w))\<lparr>pilotStat := WAITING_FOR_BOARDING\<rparr>\<rparr>
       \<and> trace w' = trace w @ new_events w w'
       \<and> new_events w w' =
           [SemDown mutex (Some (rc w 0)),
            StorePilotStat WAITING_FOR_BOARDING,
            SaveState,
            SemUp mutex (rc w 1),
            SemDown readyToFlight (Some (rc w 2))]
       \<and> rc w 0 \<noteq> - 1 \<and> rc w 1 \<noteq> - 1 \<and> woken w 2 \<and> rc w 2 \<noteq> - 1
       \<and> under_mutex accesses_state False (new_events w w')
       \<and> outside_mutex (waits_on readyToFlight) False (new_events w w')
       \<and> length (filter on_rendezvous (new_events w w')) = 1)"
  by (simp add: waitUntilReadyToFlight_Return_iff waitUntilReadyToFlight_Blocked
      new_events_def holding_def)

theorem waitUntilReadyToFlight_awaits_witness:
  "(woken (boot all_ok 0) 0 \<and> rc (boot all_ok 0) 0 \<noteq> - 1 \<and> rc (boot all_ok 0) 1 \<noteq> - 1
     \<and> woken (boot all_ok 0) 2 \<and> rc (boot all_ok 0) 2 \<noteq> - 1)
   \<and> waitUntilReadyToFlight (boot all_ok 0) =
       Return () (world_of (waitUntilReadyToFlight (boot all_ok 0)))
   \<and> pilotStat (st (fSt (world_of (waitUntilReadyToFlight (boot all_ok 0))))) = WAITING_FOR_BOARDING
   \<and> trace (world_of (waitUntilReadyToFlight (boot all_ok 0))) =
       [SemDown mutex (Some 0), StorePilotStat WAITING_FOR_BOARDING, SaveState,
        SemUp mutex 0, SemDown readyToFlight (Some 0)]
   \<and> \<not> woken (boot (never_at 2) 0) 2
   \<and> waitUntilReadyToFlight (boot (never_at 2) 0) =
       Blocked (world_of (waitUntilReadyToFlight (boot (never_at 2) 0)))
   \<and> new_events (boot (never_at 2) 0) (world_of (waitUntilReadyToFlight (boot (never_at 2) 0))) =
       [SemDown mutex (Some 0), StorePilotStat WAITING_FOR_BOARDING, SaveState,
        SemUp mutex 0, SemDown readyToFlight None]"
proof -
  let ?w = "boot all_ok 0" and ?v = "boot (never_at 2) 0"
  have h: "woken ?w 0 \<and> rc ?w 0 \<noteq> - 1 \<and> rc ?w 1 \<noteq> - 1 \<and> woken ?w 2 \<and> rc ?w 2 \<noteq> - 1"
    by (simp add: boot_sel reply_sel)
  with waitUntilReadyToFlight_awaits [of ?w]
  obtain w' where r: "waitUntilReadyToFlight ?w = Return () w'" by blast
  with waitUntilReadyToFlight_awaits [of ?w]
  have "fSt w' = (fSt ?w)\<lparr>st := (st (fSt ?w))\<lparr>pilotStat := WAITING_FOR_BOARDING\<rparr>\<rparr>
      \<and> trace w' = trace ?w @ new_events ?w w'
      \<and> new_events ?w w' =
           [SemDown mutex (Some (rc ?w 0)), StorePilotStat WAITING_FOR_BOARDING, SaveState,
            SemUp mutex (rc ?w 1), SemDown readyToFlight (Some (rc ?w 2))]"
    by blast
  then have c: "pilotStat (st (fSt w')) = WAITING_FOR_BOARDING
      \<and> trace w' =
          [SemDown mutex (Some 0), StorePilotStat WAITING_FOR_BOARDING, SaveState,
           SemUp mutex 0, SemDown readyToFlight (Some 0)]"
    by (simp add: boot_sel reply_sel)
  have g: "woken ?v 0 \<and> rc ?v 0 \<noteq> - 1 \<and> rc ?v 1 \<noteq> - 1 \<and> \<not> woken ?v 2"
    by (simp add: boot_sel reply_sel)
  with waitUntilReadyToFlight_awaits [of ?v]
  obtain v' where b: "waitUntilReadyToFlight ?v = Blocked v'"
    and "new_events ?v v' =
           [SemDown mutex (Some (rc ?v 0)), StorePilotStat WAITING_FOR_BOARDING, SaveState,
            SemUp mutex (rc ?v 1), SemDown readyToFlight None]"
    by blast
  then have d: "new_events ?v v' =
           [SemDown mutex (Some 0), StorePilotStat WAITING_FOR_BOARDING, SaveState,
            SemUp mutex 0, SemDown readyToFlight None]"
    by (simp add: boot_sel reply_sel)
  from h c g d show ?thesis unfolding r b by simp
qed

text \<open>
  Claim C6 (arriveAndReleasePassengers). A call of \<open>dropPassengersAtTarget\<close> returns when
  its six semaphore operations succeed. When \<open>planeEmpty\<close> is never raised the call never
  returns. A call that returns has, while holding the mutex, stored DROPING_PASSENGERS
  into the state of the Pilot, then released the mutex, then raised
  \<open>passengersWaitInFlight\<close> exactly once, then waited on \<open>planeEmpty\<close>, which was raised,
  and only after that wait logged the return under the mutex and returned.
\<close>

theorem dropPassengersAtTarget_releases:
  "(woken w 0 \<and> rc w 0 \<noteq> - 1 \<and> rc w 1 \<noteq> - 1 \<and> rc w 2 \<noteq> - 1
      \<and> woken w 3 \<and> rc w 3 \<noteq> - 1 \<and> woken w 4 \<and> rc w 4 \<noteq> - 1 \<and> rc w 5 \<noteq> - 1
      \<longrightarrow> (\<exists>w'. dropPassengersAtTarget w = Return () w'))
   \<and> (woken w 0 \<and> rc w 0 \<noteq> - 1 \<and> rc w 1 \<noteq> - 1 \<and> rc w 2 \<noteq> - 1 \<and> \<not> woken w 3
      \<longrightarrow> (\<exists>w'. dropPassengersAtTarget w = Blocked w'
             \<and> new_events w w' =
                 [SemDown mutex (Some (rc w 0)),
                  StorePilotStat DROPING_PASSENGERS,
                  SaveFlightArrived,
                  SaveState,
                  SemUp mutex (rc w 1),
                  SemUp passengersWaitInFlight (rc w 2),
                  SemDown planeEmpty None]))
   \<and> (\<forall>u w'. dropPassengersAtTarget w = Return u w' \<longrightarrow>
         fSt w' = (fSt w)\<lparr>st := (st (fSt w))\<lparr>pilotStat := DROPING_PASSENGERS\<rparr>\<rparr>
       \<and> trace w' = trace w @ new_events w w'
       \<and> new_events w w' =
           [SemDown mutex (Some (rc w 0)),
            StorePilotStat DROPING_PASSENGERS,
            SaveFlightArrived,
            SaveState,
            SemUp mutex (rc w 1),
            SemUp passengersWaitInFlight (rc w 2),
            SemDown planeEmpty (Some (rc w 3)),
            SemDown mutex (Some (rc w 4)),
            SaveFlightReturning,
            SemUp mutex (rc w 5)]
       \<and> rc w 0 \<noteq> - 1 \<and> rc w 1 \<noteq> - 1 \<and> rc w 2 \<noteq> - 1
       \<and> woken w 3 \<and> rc w 3 \<noteq> - 1 \<and> rc w 4 \<noteq> - 1 \<and> rc w 5 \<noteq> - 1
       \<and> under_mutex accesses_state False (new_events w w')
       \<and> outside_mutex on_rendezvous False (new_events w w')
       \<and> length (filter (raises passengersWaitInFlight) (new_events w w')) = 1
       \<and> length (filter (waits_on planeEmpty) (new_events w w')) = 1)"
  by (simp add: dropPassengersAtTarget_Return_iff dropPassengersAtTarget_Blocked
      new_events_def holding_def)

theorem dropPassengersAtTarget_releases_witness:
  "(woken (boot all_ok 0) 0 \<and> rc (boot all_ok 0) 0 \<noteq> - 1 \<and> rc (boot all_ok 0) 1 \<noteq> - 1
     \<and> rc (boot all_ok 0) 2 \<noteq> - 1 \<and> woken (boot all_ok 0) 3 \<and> rc (boot all_ok 0) 3 \<noteq> - 1
     \<and> woken (boot all_ok 0) 4 \<and> rc (boot all_ok 0) 4 \<noteq> - 1 \<and> rc (boot all_ok 0) 5 \<noteq> - 1)
   \<and> dropPassengersAtTarget (boot all_ok 0) =
       Return () (world_of (dropPassengersAtTarget (boot all_ok 0)))
   \<and> pilotStat (st (fSt (world_of (dropPassengersAtTarget (boot all_ok 0))))) = DROPING_PASSENGERS
   \<and> trace (world_of (dropPassengersAtTarget (boot all_ok 0))) =
       [SemDown mutex (Some 0), StorePilotStat DROPING_PASSENGERS, SaveFlightArrived, SaveState,
        SemUp mutex 0, SemUp passengersWaitInFlight 0, SemDown planeEmpty (Some 0),
        SemDown mutex (Some 0), SaveFlightReturning, SemUp mutex 0]
   \<and> \<not> woken (boot (never_at 3) 0) 3
   \<and> dropPassengersAtTarget (boot (never_at 3) 0) =
       Blocked (world_of (dropPassengersAtTarget (boot (never_at 3) 0)))
   \<and> new_events (boot (never_at 3) 0) (world_of (dropPassengersAtTarget (boot (never_at 3) 0))) =
       [SemDown mutex (Some 0), StorePilotStat DROPING_PASSENGERS, SaveFlightArrived, SaveState,
        SemUp mutex 0, SemUp passengersWaitInFlight 0, SemDown planeEmpty None]"
proof -
  let ?w = "boot all_ok 0" and ?v = "boot (never_at 3) 0"
  have h: "woken ?w 0 \<and> rc ?w 0 \<noteq> - 1 \<and> rc ?w 1 \<noteq> - 1 \<and> rc ?w 2 \<noteq> - 1
      \<and> woken ?w 3 \<and> rc ?w 3 \<noteq> - 1 \<and> woken ?w 4 \<and> rc ?w 4 \<noteq> - 1 \<and> rc ?w 5 \<noteq> - 1"
    by (simp add: boot_sel reply_sel)
  with dropPassengersAtTarget_releases [of ?w]
  obtain w' where r: "dropPassengersAtTarget ?w = Return () w'" by blast
  with dropPassengersAtTarget_releases [of ?w]
  have "fSt w' = (fSt ?w)\<lparr>st := (st (fSt ?w))\<lparr>pilotStat := DROPING_PASSENGERS\<rparr>\<rparr>
      \<and> trace w' = trace ?w @ new_events ?w w'
      \<and> new_events ?w w' =
           [SemDown mutex (Some (rc ?w 0)), StorePilotStat DROPING_PASSENGERS, SaveFlightArrived,
            SaveState, SemUp mutex (rc ?w 1), SemUp passengersWaitInFlight (rc ?w 2),
            SemDown planeEmpty (Some (rc ?w 3)), SemDown mutex (Some (rc ?w 4)),
            SaveFlightReturning, SemUp mutex (rc ?w 5)]"
    by blast
  then have c: "pilotStat (st (fSt w')) = DROPING_PASSENGERS
      \<and> trace w' =
          [SemDown mutex (Some 0), StorePilotStat DROPING_PASSENGERS, SaveFlightArrived, SaveState,
           SemUp mutex 0, SemUp passengersWaitInFlight 0, SemDown planeEmpty (Some 0),
           SemDown mutex (Some 0), SaveFlightReturning, SemUp mutex 0]"
    by (simp add: boot_sel reply_sel)
  have g: "woken ?v 0 \<and> rc ?v 0 \<noteq> - 1 \<and> rc ?v 1 \<noteq> - 1 \<and> rc ?v 2 \<noteq> - 1 \<and> \<not> woken ?v 3"
    by (simp add: boot_sel reply_sel)
  with dropPassengersAtTarget_releases [of ?v]
  obtain v' where b: "dropPassengersAtTarget ?v = Blocked v'"
    and "new_events ?v v' =
           [SemDown mutex (Some (rc ?v 0)), StorePilotStat DROPING_PASSENGERS, SaveFlightArrived,
            SaveState, SemUp mutex (rc ?v 1), SemUp passengersWaitInFlight (rc ?v 2),
            SemDown planeEmpty None]"
    by blast
  then have d: "new_events ?v v' =
           [SemDown mutex (Some 0), StorePilotStat DROPING_PASSENGERS, SaveFlightArrived,
            SaveState, SemUp mutex 0, SemUp passengersWaitInFlight 0, SemDown planeEmpty None]"
    by (simp add: boot_sel reply_sel)
  from h c g d show ?thesis unfolding r b by simp
qed

text \<open>
  Claim C7 (outboundTravel / returnTravel). A call of \<open>flight go\<close> returns when its two
  semaphore operations succeed. A call that returns has, while holding the mutex, stored
  FLYING (when \<open>go\<close>) or FLYING_BACK (otherwise) into the state of the Pilot and saved the
  state, then released the mutex, then slept exactly once. The time slept, in
  microseconds, lies between 100 and \<open>MAXFLIGHT + 100\<close> whenever \<open>MAXFLIGHT\<close> is not
  negative, \<open>MAXFLIGHT + 100\<close> fits an unsigned int of 32 bits, and \<open>random\<close> answers
  within its range. The arithmetic is exact: the rounding of doubles is not modelled.
\<close>

theorem flight_travels:
  "(woken w 0 \<and> rc w 0 \<noteq> - 1 \<and> rc w 1 \<noteq> - 1
      \<longrightarrow> (\<exists>w'. flight MAXFLIGHT go w = Return () w'))
   \<and> (\<forall>u w'. flight MAXFLIGHT go w = Return u w' \<longrightarrow>
         fSt w' = (fSt w)\<lparr>st := (st (fSt w))\<lparr>pilotStat := (if go then FLYING else FLYING_BACK)\<rparr>\<rparr>
       \<and> trace w' = trace w @ new_events w w'
       \<and> new_events w w' =
           [SemDown mutex (Some (rc w 0)),
            StorePilotStat (if go then FLYING else FLYING_BACK),
            SaveState,
            SemUp mutex (rc w 1),
            Usleep (word_of_int
              \<lfloor>(MAXFLIGHT * of_int (randoms w (clock w + 2))) / of_int RAND_MAX + 100\<rfloor>)]
       \<and> rc w 0 \<noteq> - 1 \<and> rc w 1 \<noteq> - 1
       \<and> under_mutex accesses_state False (new_events w w')
       \<and> outside_mutex sleeps False (new_events w w')
       \<and> length (filter sleeps (new_events w w')) = 1)
   \<and> (0 \<le> MAXFLIGHT \<and> MAXFLIGHT + 100 < 2 ^ 32
        \<and> 0 \<le> randoms w (clock w + 2) \<and> randoms w (clock w + 2) \<le> RAND_MAX \<longrightarrow>
         100 \<le> uint (word_of_int
                  \<lfloor>(MAXFLIGHT * of_int (randoms w (clock w + 2))) / of_int RAND_MAX + 100\<rfloor>
                  :: 32 word)
       \<and> real_of_int (uint (word_of_int
                  \<lfloor>(MAXFLIGHT * of_int (randoms w (clock w + 2))) / of_int RAND_MAX + 100\<rfloor>
                  :: 32 word)) \<le> MAXFLIGHT + 100)"
proof (intro conjI)
  show "woken w 0 \<and> rc w 0 \<noteq> - 1 \<and> rc w 1 \<noteq> - 1
      \<longrightarrow> (\<exists>w'. flight MAXFLIGHT go w = Return () w')"
    by (simp add: flight_Return_iff)
next
  show "\<forall>u w'. flight MAXFLIGHT go w = Return u w' \<longrightarrow>
         fSt w' = (fSt w)\<lparr>st := (st (fSt w))\<lparr>pilotStat := (if go then FLYING else FLYING_BACK)\<rparr>\<rparr>
       \<and> trace w' = trace w @ new_events w w'
       \<and> new_events w w' =
           [SemDown mutex (Some (rc w 0)),
            StorePilotStat (if go then FLYING else FLYING_BACK),
            SaveState,
            SemUp mutex (rc w 1),
            Usleep (word_of_int
              \<lfloor>(MAXFLIGHT * of_int (randoms w (clock w + 2))) / of_int RAND_MAX + 100\<rfloor>)]
       \<and> rc w 0 \<noteq> - 1 \<and> rc w 1 \<noteq> - 1
       \<and> under_mutex accesses_state False (new_events w w')
       \<and> outside_mutex sleeps False (new_events w w')
       \<and> length (filter sleeps (new_events w w')) = 1"
    by (simp add: flight_Return_iff new_events_def holding_def)
next
  show "0 \<le> MAXFLIGHT \<and> MAXFLIGHT + 100 < 2 ^ 32
        \<and> 0 \<le> randoms w (clock w + 2) \<and> randoms w (clock w + 2) \<le> RAND_MAX \<longrightarrow>
         100 \<le> uint (word_of_int
                  \<lfloor>(MAXFLIGHT * of_int (randoms w (clock w + 2))) / of_int RAND_MAX + 100\<rfloor>
                  :: 32 word)
       \<and> real_of_int (uint (word_of_int
                  \<lfloor>(MAXFLIGHT * of_int (randoms w (clock w + 2))) / of_int RAND_MAX + 100\<rfloor>
                  :: 32 word)) \<le> MAXFLIGHT + 100"
    using travel_bounds [of MAXFLIGHT "randoms w (clock w + 2)"] by blast
qed

theorem flight_travels_witness:
  "(woken (boot all_ok 0) 0 \<and> rc (boot all_ok 0) 0 \<noteq> - 1 \<and> rc (boot all_ok 0) 1 \<noteq> - 1)
   \<and> flight 100 True (boot all_ok 0) = Return () (world_of (flight 100 True (boot all_ok 0)))
   \<and> pilotStat (st (fSt (world_of (flight 100 True (boot all_ok 0))))) = FLYING
   \<and> trace (world_of (flight 100 True (boot all_ok 0))) =
       [SemDown mutex (Some 0), StorePilotStat FLYING, SaveState, SemUp mutex 0, Usleep 149]
   \<and> ((0::real) \<le> 100 \<and> (100::real) + 100 < 2 ^ 32
       \<and> 0 \<le> randoms (boot all_ok 0) (clock (boot all_ok 0) + 2)
       \<and> randoms (boot all_ok 0) (clock (boot all_ok 0) + 2) \<le> RAND_MAX)
   \<and> 100 \<le> uint (149 :: 32 word) \<and> real_of_int (uint (149 :: 32 word)) \<le> 100 + 100"
proof -
  let ?w = "boot all_ok 0"
  let ?t = "word_of_int
    \<lfloor>((100::real) * of_int (randoms ?w (clock ?w + 2))) / of_int RAND_MAX + 100\<rfloor> :: 32 word"
  have t: "?t = 149"
    by (simp add: boot_sel RAND_MAX_def)
  have h: "woken ?w 0 \<and> rc ?w 0 \<noteq> - 1 \<and> rc ?w 1 \<noteq> - 1"
    by (simp add: boot_sel reply_sel)
  with flight_travels [of ?w 100 True]
  obtain w' where r: "flight 100 True ?w = Return () w'" by blast
  with flight_travels [of ?w 100 True]
  have "fSt w' = (fSt ?w)\<lparr>st := (st (fSt ?w))\<lparr>pilotStat := (if True then FLYING else FLYING_BACK)\<rparr>\<rparr>
      \<and> trace w' = trace ?w @ new_events ?w w'
      \<and> new_events ?w w' =
           [SemDown mutex (Some (rc ?w 0)), StorePilotStat (if True then FLYING else FLYING_BACK),
            SaveState, SemUp mutex (rc ?w 1), Usleep ?t]"
    by blast
  then have c: "pilotStat (st (fSt w')) = FLYING
      \<and> trace w' =
          [SemDown mutex (Some 0), StorePilotStat FLYING, SaveState, SemUp mutex 0, Usleep 149]"
    unfolding t by (simp add: boot_sel reply_sel)
  have g: "(0::real) \<le> 100 \<and> (100::real) + 100 < 2 ^ 32
      \<and> 0 \<le> randoms ?w (clock ?w + 2) \<and> randoms ?w (clock ?w + 2) \<le> RAND_MAX"
    by (simp add: boot_sel RAND_MAX_def)
  with flight_travels [of ?w 100 True]
  have "100 \<le> uint ?t \<and> real_of_int (uint ?t) \<le> 100 + 100" by blast
  then have b: "100 \<le> uint (149 :: 32 word) \<and> real_of_int (uint (149 :: 32 word)) \<le> 100 + 100"
    unfolding t .
  from h c g b show ?thesis unfolding r by simp
qed

text \<open>
  Claim C10 (frame). Whatever the outcome of the call, \<open>flight\<close>,
  \<open>waitUntilReadyToFlight\<close> and \<open>dropPassengersAtTarget\<close> leave every field of the region
  other than the state of the Pilot as it was: \<open>nFlight\<close>, \<open>finished\<close>, the counters and
  the states of the other actors. \<open>signalReadyForBoarding\<close> leaves \<open>finished\<close>, the
  counters and the states of the other actors as they were, and is the one operation that
  changes \<open>nFlight\<close>: by one when it returns, by nothing or by one otherwise.
\<close>

theorem pilot_operations_frame:
  "only_pilotStat_changed (fSt w) (fSt (world_of (flight MAXFLIGHT go w)))
   \<and> only_pilotStat_changed (fSt w) (fSt (world_of (waitUntilReadyToFlight w)))
   \<and> only_pilotStat_changed (fSt w) (fSt (world_of (dropPassengersAtTarget w)))
   \<and> only_pilotStat_nFlight_changed (fSt w) (fSt (world_of (signalReadyForBoarding w)))
   \<and> (nFlight (fSt (world_of (signalReadyForBoarding w))) = nFlight (fSt w)
      \<or> nFlight (fSt (world_of (signalReadyForBoarding w))) = nFlight (fSt w) + 1)
   \<and> (returned (signalReadyForBoarding w)
      \<longrightarrow> nFlight (fSt (world_of (signalReadyForBoarding w))) = nFlight (fSt w) + 1)"
proof (intro conjI)
  show "only_pilotStat_changed (fSt w) (fSt (world_of (flight MAXFLIGHT go w)))"
    by (simp add: flight_def run_simps only_pilotStat_changed_def)
  show "only_pilotStat_changed (fSt w) (fSt (world_of (waitUntilReadyToFlight w)))"
    by (simp add: waitUntilReadyToFlight_def run_simps only_pilotStat_changed_def)
  show "only_pilotStat_changed (fSt w) (fSt (world_of (dropPassengersAtTarget w)))"
    by (simp add: dropPassengersAtTarget_def run_simps only_pilotStat_changed_def)
  show "only_pilotStat_nFlight_changed (fSt w) (fSt (world_of (signalReadyForBoarding w)))"
    by (simp add: signalReadyForBoarding_def run_simps only_pilotStat_nFlight_changed_def)
  show "nFlight (fSt (world_of (signalReadyForBoarding w))) = nFlight (fSt w)
      \<or> nFlight (fSt (world_of (signalReadyForBoarding w))) = nFlight (fSt w) + 1"
    by (simp add: signalReadyForBoarding_def run_simps)
  show "returned (signalReadyForBoarding w)
      \<longrightarrow> nFlight (fSt (world_of (signalReadyForBoarding w))) = nFlight (fSt w) + 1"
    by (simp add: signalReadyForBoarding_def run_simps)
qed

theorem pilot_operations_frame_witness:
  "returned (signalReadyForBoarding (boot all_ok 0))
   \<and> nFlight (fSt (boot all_ok 0)) = 0
   \<and> nFlight (fSt (world_of (signalReadyForBoarding (boot all_ok 0)))) = 1
   \<and> nFlight (fSt (world_of (flight 100 True (boot all_ok 0)))) = 0
   \<and> \<not> finished (fSt (world_of (dropPassengersAtTarget (boot all_ok 0))))"
proof -
  let ?w = "boot all_ok 0"
  have h: "returned (signalReadyForBoarding ?w)"
    by (simp add: signalReadyForBoarding_def run_simps boot_sel reply_sel)
  with pilot_operations_frame [of ?w 100 True]
  have "nFlight (fSt (world_of (signalReadyForBoarding ?w))) = nFlight (fSt ?w) + 1"
    by blast
  then have a: "nFlight (fSt (world_of (signalReadyForBoarding ?w))) = 1"
    by (simp add: boot_sel)
  from pilot_operations_frame [of ?w 100 True]
  have "only_pilotStat_changed (fSt ?w) (fSt (world_of (flight 100 True ?w)))
      \<and> only_pilotStat_changed (fSt ?w) (fSt (world_of (dropPassengersAtTarget ?w)))"
    by blast
  then have b: "nFlight (fSt (world_of (flight 100 True ?w))) = 0
      \<and> \<not> finished (fSt (world_of (dropPassengersAtTarget ?w)))"
    by (simp add: only_pilotStat_changed_def boot_sel)
  from h a b show ?thesis by (simp add: boot_sel)
qed

section \<open>The life cycle\<close>

text \<open>
  Claim C3. In every run of the Pilot that starts with nothing done, and in every single
  operation, each operation on a rendezvous semaphore (the waits on \<open>readyToFlight\<close> and
  \<open>planeEmpty\<close>, the raises of \<open>readyForBoarding\<close> and \<open>passengersWaitInFlight\<close>) and
  each sleep happens while the Pilot does not hold the mutex.
\<close>

theorem mutex_not_held_across_suspension:
  "(trace w = [] \<and> main MAXFLIGHT fuel w = Some out
      \<longrightarrow> outside_mutex suspends False (trace (world_of out)))
   \<and> outside_mutex suspends False (new_events w (world_of (flight MAXFLIGHT go w)))
   \<and> outside_mutex suspends False (new_events w (world_of (signalReadyForBoarding w)))
   \<and> outside_mutex suspends False (new_events w (world_of (waitUntilReadyToFlight w)))
   \<and> outside_mutex suspends False (new_events w (world_of (dropPassengersAtTarget w)))"
proof (intro conjI impI)
  assume a: "trace w = [] \<and> main MAXFLIGHT fuel w = Some out"
  then have "calm (world_of out)"
    using main_calm [of w MAXFLIGHT fuel out] released_start [of w] by blast
  then show "outside_mutex suspends False (trace (world_of out))"
    unfolding calm_def
    by (rule outside_mutex_mono) (auto simp: suspends_def unlocked_action_def)
next
  show "outside_mutex suspends False (new_events w (world_of (flight MAXFLIGHT go w)))"
    by (simp add: flight_def run_simps new_events_def suspends_def holding_def)
  show "outside_mutex suspends False (new_events w (world_of (signalReadyForBoarding w)))"
    by (simp add: signalReadyForBoarding_def run_simps new_events_def suspends_def holding_def)
  show "outside_mutex suspends False (new_events w (world_of (waitUntilReadyToFlight w)))"
    by (simp add: waitUntilReadyToFlight_def run_simps new_events_def suspends_def holding_def)
  show "outside_mutex suspends False (new_events w (world_of (dropPassengersAtTarget w)))"
    by (simp add: dropPassengersAtTarget_def run_simps new_events_def suspends_def holding_def)
qed

theorem mutex_not_held_across_suspension_witness:
  "trace (boot all_ok 20) = []
   \<and> (\<exists>out. main 100 (Suc (Suc 0)) (boot all_ok 20) = Some out
        \<and> trace (world_of out) =
            ReadFinished False # full_cycle_events @ [ReadFinished True, ShmemDettach 0]
        \<and> outside_mutex suspends False (trace (world_of out)))"
proof -
  let ?w = "boot all_ok 20"
  have t: "trace ?w = []" by (simp add: boot_sel)
  from one_flight_run obtain out where m: "main 100 (Suc (Suc 0)) ?w = Some out"
    and tr: "trace (world_of out) =
      ReadFinished False # full_cycle_events @ [ReadFinished True, ShmemDettach 0]"
    by blast
  from mutex_not_held_across_suspension [of ?w 100 "Suc (Suc 0)" out] t m
  have "outside_mutex suspends False (trace (world_of out))" by blast
  with t m tr show ?thesis by blast
qed

text \<open>
  Claim C9. When a semaphore operation of the Pilot returns \<open>-1\<close>, the Pilot prints the
  diagnostic and ends the process with EXIT_FAILURE: nothing else follows the failed
  operation in the trace, neither a retry nor a further step. This holds of every run of
  the Pilot and of each operation on its own.
\<close>

theorem semaphore_failure_is_fatal:
  "(trace w = [] \<and> main MAXFLIGHT fuel w = Some out
      \<longrightarrow> failure_is_fatal out (trace (world_of out)))
   \<and> failure_is_fatal (flight MAXFLIGHT go w) (new_events w (world_of (flight MAXFLIGHT go w)))
   \<and> failure_is_fatal (signalReadyForBoarding w)
        (new_events w (world_of (signalReadyForBoarding w)))
   \<and> failure_is_fatal (waitUntilReadyToFlight w)
        (new_events w (world_of (waitUntilReadyToFlight w)))
   \<and> failure_is_fatal (dropPassengersAtTarget w)
        (new_events w (world_of (dropPassengersAtTarget w)))"
proof (intro conjI impI)
  assume a: "trace w = [] \<and> main MAXFLIGHT fuel w = Some out"
  then have s: "case out of Return r w' \<Rightarrow> sound w' | Exited c w' \<Rightarrow> aborted c w'
      | Blocked w' \<Rightarrow> sound w'"
    using main_sound [of w MAXFLIGHT fuel out] sound_start [of w] by blast
  show "failure_is_fatal out (trace (world_of out))"
  proof (cases out)
    case (Return r w')
    with s show ?thesis
      by (simp add: failure_is_fatal_def sound_def abort_on_failure_sound)
  next
    case (Exited c w')
    with s show ?thesis
      by (simp add: failure_is_fatal_def aborted_def aborted_rev_abort)
  next
    case (Blocked w')
    with s show ?thesis
      by (simp add: failure_is_fatal_def sound_def abort_on_failure_sound)
  qed
next
  show "failure_is_fatal (flight MAXFLIGHT go w) (new_events w (world_of (flight MAXFLIGHT go w)))"
    by (simp add: flight_def run_simps new_events_def failure_is_fatal_def)
  show "failure_is_fatal (signalReadyForBoarding w)
        (new_events w (world_of (signalReadyForBoarding w)))"
    by (simp add: signalReadyForBoarding_def run_simps new_events_def failure_is_fatal_def)
  show "failure_is_fatal (waitUntilReadyToFlight w)
        (new_events w (world_of (waitUntilReadyToFlight w)))"
    by (simp add: waitUntilReadyToFlight_def run_simps new_events_def failure_is_fatal_def)
  show "failure_is_fatal (dropPassengersAtTarget w)
        (new_events w (world_of (dropPassengersAtTarget w)))"
    by (simp add: dropPassengersAtTarget_def run_simps new_events_def failure_is_fatal_def)
qed

theorem semaphore_failure_is_fatal_witness:
  "trace (boot (fails_at 5) 100) = []
   \<and> (\<exists>out. main 100 (Suc 0) (boot (fails_at 5) 100) = Some out
        \<and> trace (world_of out) =
            [ReadFinished False, SemDown mutex (Some 0), StorePilotStat FLYING_BACK, SaveState,
             SemUp mutex 0, Usleep 149, SemDown mutex (Some 0),
             StorePilotStat READY_FOR_BOARDING, StoreNFlight 1, SaveState, SaveStartBoarding,
             SemUp mutex (- 1), Perror ''error on the up operation for semaphore access (PT)'']
        \<and> list_ex failed (trace (world_of out))
        \<and> exited_with EXIT_FAILURE out)"
proof -
  let ?w = "boot (fails_at 5) 100"
  have t: "trace ?w = []" by (simp add: boot_sel)
  have "\<exists>out. main 100 (Suc 0) ?w = Some out
        \<and> trace (world_of out) =
            [ReadFinished False, SemDown mutex (Some 0), StorePilotStat FLYING_BACK, SaveState,
             SemUp mutex 0, Usleep 149, SemDown mutex (Some 0),
             StorePilotStat READY_FOR_BOARDING, StoreNFlight 1, SaveState, SaveStartBoarding,
             SemUp mutex (- 1), Perror ''error on the up operation for semaphore access (PT)'']"
    by (simp add: eval_defs)
  then obtain out where m: "main 100 (Suc 0) ?w = Some out"
    and tr: "trace (world_of out) =
            [ReadFinished False, SemDown mutex (Some 0), StorePilotStat FLYING_BACK, SaveState,
             SemUp mutex 0, Usleep 149, SemDown mutex (Some 0),
             StorePilotStat READY_FOR_BOARDING, StoreNFlight 1, SaveState, SaveStartBoarding,
             SemUp mutex (- 1), Perror ''error on the up operation for semaphore access (PT)'']"
    by blast
  from semaphore_failure_is_fatal [of ?w 100 "Suc 0" out] t m
  have f: "failure_is_fatal out (trace (world_of out))" by blast
  have x: "list_ex failed (trace (world_of out))" unfolding tr by simp
  with f have "exited_with EXIT_FAILURE out" by (simp add: failure_is_fatal_def)
  with t m tr x show ?thesis by blast
qed

text \<open>
  Claim C8. When the read of \<open>finished\<close> at the top of a cycle gives true, be it at the
  first look or after any number \<open>k\<close> of cycles, the Pilot leaves the loop, detaches from
  the region and returns from \<open>main\<close>, with enough fuel for the \<open>k\<close> cycles and one more
  look. In every run that starts with nothing done, \<open>main\<close> returns exactly when a read
  gave true; the first such read is followed by the detach and its diagnostic only, so by
  no raise of \<open>readyForBoarding\<close> and by no operation of a cycle, and a run that returns
  ends with that read, the detach and, when it failed, the diagnostic.
\<close>

theorem finished_ends_the_pilot:
  "(fst (isFinished w) \<longrightarrow>
      (\<exists>w'. main MAXFLIGHT (Suc n) w =
               Some (Return (if rc w 0 = - 1 then EXIT_FAILURE else EXIT_SUCCESS) w')
           \<and> new_events w w' =
               ReadFinished True # ShmemDettach (rc w 0) #
                 (if rc w 0 = - 1
                  then [Perror ''error on unmapping the shared region off the process address space'']
                  else [])))
   \<and> (\<forall>wk. after_cycles MAXFLIGHT k w = Some wk \<and> fst (isFinished wk) \<longrightarrow>
        (\<exists>w'. main MAXFLIGHT (k + Suc n) w =
                 Some (Return (if rc wk 0 = - 1 then EXIT_FAILURE else EXIT_SUCCESS) w')
             \<and> new_events wk w' =
                 ReadFinished True # ShmemDettach (rc wk 0) #
                   (if rc wk 0 = - 1
                    then [Perror ''error on unmapping the shared region off the process address space'']
                    else [])))
   \<and> (trace w = [] \<and> main MAXFLIGHT fuel w = Some out \<longrightarrow>
        quiet_after_finished (trace (world_of out))
        \<and> (ReadFinished True \<in> set (trace (world_of out))) = returned out
        \<and> (returned out \<longrightarrow> detaches_at_end out (trace (world_of out))))"
proof (intro conjI impI allI)
  assume "fst (isFinished w)"
  then show "\<exists>w'. main MAXFLIGHT (Suc n) w =
               Some (Return (if rc w 0 = - 1 then EXIT_FAILURE else EXIT_SUCCESS) w')
           \<and> new_events w w' =
               ReadFinished True # ShmemDettach (rc w 0) #
                 (if rc w 0 = - 1
                  then [Perror ''error on unmapping the shared region off the process address space'']
                  else [])"
    by (simp add: main_finished new_events_def)
next
  fix wk
  assume a: "after_cycles MAXFLIGHT k w = Some wk \<and> fst (isFinished wk)"
  then have k: "after_cycles MAXFLIGHT k w = Some wk" and f: "fst (isFinished wk)"
    by blast+
  have e: "main MAXFLIGHT (k + Suc n) w = main MAXFLIGHT (Suc n) wk"
    using k by (rule main_after_cycles)
  from f show "\<exists>w'. main MAXFLIGHT (k + Suc n) w =
                 Some (Return (if rc wk 0 = - 1 then EXIT_FAILURE else EXIT_SUCCESS) w')
             \<and> new_events wk w' =
                 ReadFinished True # ShmemDettach (rc wk 0) #
                   (if rc wk 0 = - 1
                    then [Perror ''error on unmapping the shared region off the process address space'']
                    else [])"
    unfolding e by (simp add: main_finished new_events_def)
next
  assume a: "trace w = [] \<and> main MAXFLIGHT fuel w = Some out"
  then show "quiet_after_finished (trace (world_of out))"
    using main_quiet [of w MAXFLIGHT fuel out] unfinished_start [of w] by blast
  from a show "(ReadFinished True \<in> set (trace (world_of out))) = returned out"
    using main_detaches [of w MAXFLIGHT fuel out] unfinished_start [of w] by blast
  assume "returned out"
  with a show "detaches_at_end out (trace (world_of out))"
    using main_detaches [of w MAXFLIGHT fuel out] unfinished_start [of w] by blast
qed

theorem finished_ends_the_pilot_witness:
  "fst (isFinished (boot all_ok 0))
   \<and> (\<exists>w'. main 100 (Suc 0) (boot all_ok 0) = Some (Return EXIT_SUCCESS w')
         \<and> trace w' = [ReadFinished True, ShmemDettach 0])
   \<and> (\<exists>wk. after_cycles 100 (Suc 0) (boot all_ok 20) = Some wk \<and> fst (isFinished wk)
        \<and> (\<exists>w'. main 100 (Suc (Suc 0)) (boot all_ok 20) = Some (Return EXIT_SUCCESS w')
              \<and> new_events wk w' = [ReadFinished True, ShmemDettach 0]))
   \<and> trace (boot all_ok 20) = []
   \<and> (\<exists>out. main 100 (Suc (Suc 0)) (boot all_ok 20) = Some out
        \<and> trace (world_of out) =
            ReadFinished False # full_cycle_events @ [ReadFinished True, ShmemDettach 0]
        \<and> quiet_after_finished (trace (world_of out))
        \<and> ReadFinished True \<in> set (trace (world_of out))
        \<and> returned out
        \<and> detaches_at_end out (trace (world_of out)))"
proof -
  let ?a = "boot all_ok 0" and ?w = "boot all_ok 20"
  note h = finished_at_once
  have z: "rc ?a 0 = 0" by (simp add: boot_sel reply_sel)
  from finished_ends_the_pilot [of ?a 100 0] h
  obtain w' where "main 100 (Suc 0) ?a =
      Some (Return (if rc ?a 0 = - 1 then EXIT_FAILURE else EXIT_SUCCESS) w')"
    and "new_events ?a w' = ReadFinished True # ShmemDettach (rc ?a 0) #
      (if rc ?a 0 = - 1
       then [Perror ''error on unmapping the shared region off the process address space'']
       else [])"
    by blast
  then have a: "main 100 (Suc 0) ?a = Some (Return EXIT_SUCCESS w')
      \<and> trace w' = [ReadFinished True, ShmemDettach 0]"
    unfolding z by (simp add: new_events_def boot_sel)
  from one_cycle_boundary obtain wk where k: "after_cycles 100 (Suc 0) ?w = Some wk"
    and f: "fst (isFinished wk)" and y: "rc wk 0 = 0"
    by blast
  from finished_ends_the_pilot [of ?w 100 0 "Suc 0"] k f
  obtain v' where "main 100 (Suc 0 + Suc 0) ?w =
      Some (Return (if rc wk 0 = - 1 then EXIT_FAILURE else EXIT_SUCCESS) v')"
    and "new_events wk v' = ReadFinished True # ShmemDettach (rc wk 0) #
      (if rc wk 0 = - 1
       then [Perror ''error on unmapping the shared region off the process address space'']
       else [])"
    by blast
  then have b: "main 100 (Suc (Suc 0)) ?w = Some (Return EXIT_SUCCESS v')
      \<and> new_events wk v' = [ReadFinished True, ShmemDettach 0]"
    unfolding y by simp
  have t: "trace ?w = []" by (simp add: boot_sel)
  from one_flight_run obtain out where m: "main 100 (Suc (Suc 0)) ?w = Some out"
    and r: "returned out"
    and tr: "trace (world_of out) =
      ReadFinished False # full_cycle_events @ [ReadFinished True, ShmemDettach 0]"
    by blast
  from finished_ends_the_pilot [of ?w 100 _ _ "Suc (Suc 0)" out] t m r
  have q: "quiet_after_finished (trace (world_of out))
      \<and> ReadFinished True \<in> set (trace (world_of out))
      \<and> detaches_at_end out (trace (world_of out))"
    by blast
  from h a k f b t m r tr q show ?thesis by blast
qed

text \<open>
  Claim C1, amended. The Pilot reads \<open>finished\<close> at the top of every cycle and nowhere
  else: a run that starts with nothing done begins with a read, every cycle comes after
  a read that gave false, and the release that closes a cycle is followed by the next
  read. The read is one event with no semaphore operation around it, and each read
  happens while the Pilot does not hold the mutex. When a read gives true, at the first
  look or after any number of cycles, the loop ends there: the read is the last thing
  done, no signal is raised and no cycle is started; and the loop returns only so.
\<close>

theorem finished_read_outside_mutex:
  "(trace w = [] \<and> life_cycle MAXFLIGHT fuel w = Some out \<longrightarrow>
      outside_mutex reads_finished False (trace (world_of out))
      \<and> reads_at_boundaries (trace (world_of out))
      \<and> (ReadFinished True \<in> set (trace (world_of out))) = returned out
      \<and> (returned out \<longrightarrow>
           trace (world_of out) \<noteq> [] \<and> last (trace (world_of out)) = ReadFinished True))
   \<and> new_events w (snd (isFinished w)) = [ReadFinished (fst (isFinished w))]
   \<and> (fst (isFinished w) \<longrightarrow>
        life_cycle MAXFLIGHT (Suc n) w = Some (Return () (snd (isFinished w))))
   \<and> (\<forall>wk. after_cycles MAXFLIGHT k w = Some wk \<and> fst (isFinished wk) \<longrightarrow>
        life_cycle MAXFLIGHT (k + Suc n) w = Some (Return () (snd (isFinished wk))))"
proof (intro conjI impI allI)
  assume a: "trace w = [] \<and> life_cycle MAXFLIGHT fuel w = Some out"
  then have "case out of Return r w' \<Rightarrow> released w' | Exited c w' \<Rightarrow> calm w'
      | Blocked w' \<Rightarrow> calm w'"
    using life_cycle_calm [of w MAXFLIGHT fuel out] released_start [of w] by blast
  then have "calm (world_of out)"
    by (cases out) (simp_all add: released_def)
  then show "outside_mutex reads_finished False (trace (world_of out))"
    unfolding calm_def
    by (rule outside_mutex_mono) (simp add: unlocked_action_def)
  from a show "reads_at_boundaries (trace (world_of out))"
    using life_cycle_boundaries [of w MAXFLIGHT fuel out] by blast
  from a show "(ReadFinished True \<in> set (trace (world_of out))) = returned out"
    using life_cycle_finished_iff [of w MAXFLIGHT fuel out] by blast
  assume r: "returned out"
  from a have "case out of Return r w' \<Rightarrow> just_finished w' | Exited c w' \<Rightarrow> unfinished w'
      | Blocked w' \<Rightarrow> unfinished w'"
    using life_cycle_unfinished [of w MAXFLIGHT fuel out] unfinished_start [of w] by blast
  with r have j: "just_finished (world_of out)"
    by (cases out) simp_all
  from j show "trace (world_of out) \<noteq> []" by (simp add: just_finished_def)
  from j show "last (trace (world_of out)) = ReadFinished True" by (simp add: just_finished_def)
next
  show "new_events w (snd (isFinished w)) = [ReadFinished (fst (isFinished w))]"
    by (simp add: new_events_def isFinished_sel)
next
  assume "fst (isFinished w)"
  then show "life_cycle MAXFLIGHT (Suc n) w = Some (Return () (snd (isFinished w)))"
    by (rule life_cycle_finished)
next
  fix wk
  assume a: "after_cycles MAXFLIGHT k w = Some wk \<and> fst (isFinished wk)"
  then have k: "after_cycles MAXFLIGHT k w = Some wk" and f: "fst (isFinished wk)"
    by blast+
  have "life_cycle MAXFLIGHT (k + Suc n) w = life_cycle MAXFLIGHT (Suc n) wk"
    using k by (rule life_cycle_after_cycles)
  also have "\<dots> = Some (Return () (snd (isFinished wk)))"
    using f by (rule life_cycle_finished)
  finally show "life_cycle MAXFLIGHT (k + Suc n) w = Some (Return () (snd (isFinished wk)))" .
qed

theorem finished_read_outside_mutex_witness:
  "trace (boot all_ok 20) = []
   \<and> (\<exists>out. life_cycle 100 (Suc (Suc 0)) (boot all_ok 20) = Some out \<and> returned out
        \<and> trace (world_of out) = ReadFinished False # full_cycle_events @ [ReadFinished True]
        \<and> outside_mutex reads_finished False (trace (world_of out))
        \<and> reads_at_boundaries (trace (world_of out))
        \<and> ReadFinished True \<in> set (trace (world_of out))
        \<and> last (trace (world_of out)) = ReadFinished True)
   \<and> fst (isFinished (boot all_ok 0))
   \<and> life_cycle 100 (Suc 0) (boot all_ok 0) = Some (Return () (snd (isFinished (boot all_ok 0))))
   \<and> (\<exists>wk. after_cycles 100 (Suc 0) (boot all_ok 20) = Some wk \<and> fst (isFinished wk)
        \<and> life_cycle 100 (Suc (Suc 0)) (boot all_ok 20) = Some (Return () (snd (isFinished wk))))"
proof -
  let ?a = "boot all_ok 0" and ?w = "boot all_ok 20"
  have t: "trace ?w = []" by (simp add: boot_sel)
  from one_flight_loop obtain out where m: "life_cycle 100 (Suc (Suc 0)) ?w = Some out"
    and r: "returned out"
    and tr: "trace (world_of out) = ReadFinished False # full_cycle_events @ [ReadFinished True]"
    by blast
  from finished_read_outside_mutex [of ?w 100 "Suc (Suc 0)" out] t m r
  have o: "outside_mutex reads_finished False (trace (world_of out))
      \<and> reads_at_boundaries (trace (world_of out))
      \<and> ReadFinished True \<in> set (trace (world_of out))
      \<and> last (trace (world_of out)) = ReadFinished True"
    by blast
  note h = finished_at_once
  with finished_read_outside_mutex [of ?a 100 _ _ 0]
  have l: "life_cycle 100 (Suc 0) ?a = Some (Return () (snd (isFinished ?a)))" by blast
  from one_cycle_boundary obtain wk where k: "after_cycles 100 (Suc 0) ?w = Some wk"
    and f: "fst (isFinished wk)"
    by blast
  with finished_read_outside_mutex [of ?w 100 _ _ 0 "Suc 0"]
  have "life_cycle 100 (Suc 0 + Suc 0) ?w = Some (Return () (snd (isFinished wk)))" by blast
  then have e: "life_cycle 100 (Suc (Suc 0)) ?w = Some (Return () (snd (isFinished wk)))"
    by (simp del: life_cycle.simps)
  from t m r tr o h l k f e show ?thesis by blast
qed

text \<open>
  The claim as the spec states it asks for the read to happen under the mutex. In the run
  where \<open>finished\<close> is already set at the first look, the read is the only event of the
  loop and the mutex was never taken.
\<close>

theorem finished_read_under_mutex_counterexample:
  "final_trace (life_cycle 100 (Suc 0) (boot all_ok 0)) = [ReadFinished True]
   \<and> \<not> under_mutex reads_finished False (final_trace (life_cycle 100 (Suc 0) (boot all_ok 0)))"
  by (simp add: eval_defs)



end
